theory Spec2Isabelle
  imports Main "HOL-Library.AList" "HOL-Library.Multiset"
begin

section \<open>JavaScript strings and values\<close>

text \<open>
  A JavaScript string is modelled by its UTF-8 bytes (\<open>string\<close>, a \<open>char list\<close>).
  The server only compares strings, concatenates them and matches them against patterns
  whose literals are ASCII, which reads the same on the UTF-8 bytes as on the UTF-16 code
  units. Numbers are modelled as integers (HTTP statuses, alert definition ids, the
  tolerance setting); the decimal rendering below is what JavaScript prints for every
  safe integer (magnitude up to \<open>2^53 - 1\<close>). Beyond that a JavaScript number is a
  rounded value: it is printed with at most 17 significant digits and, from \<open>10^21\<close>
  on, in exponent notation.
\<close>

definition digit_char :: "nat \<Rightarrow> char" where
  "digit_char d = ''0123456789'' ! d"

fun nat_to_string :: "nat \<Rightarrow> string" where
  "nat_to_string n =
     (if n < 10 then [digit_char n] else nat_to_string (n div 10) @ [digit_char (n mod 10)])"

declare nat_to_string.simps [simp del]

definition number_to_string :: "int \<Rightarrow> string" where
  "number_to_string i =
     (if i < 0 then CHR ''-'' # nat_to_string (nat (- i)) else nat_to_string (nat i))"

text \<open>\<open>Number.isSafeInteger\<close>.\<close>

definition safe_integer :: "int \<Rightarrow> bool" where
  "safe_integer i = (\<bar>i\<bar> \<le> 9007199254740991)"

text \<open>
  \<open>n.toString()\<close> on a number: the decimal digits of a safe integer. What the built-in
  prints for a number beyond the safe integers (rounded digits, exponent notation) is
  the parameter \<open>render\<close>.
\<close>

definition number_toString :: "(int \<Rightarrow> string) \<Rightarrow> int \<Rightarrow> string" where
  "number_toString render i = (if safe_integer i then number_to_string i else render i)"

text \<open>
  Reading a decimal numeral back: an optional minus sign and digits, most significant
  first. A numeral is canonical when it has no leading zero and is not a negative zero.
\<close>

definition digit_value :: "char \<Rightarrow> nat option" where
  "digit_value c = map_of (zip ''0123456789'' [0, 1, 2, 3, 4, 5, 6, 7, 8, 9]) c"

fun digits_value :: "nat \<Rightarrow> string \<Rightarrow> nat option" where
  "digits_value acc [] = Some acc"
| "digits_value acc (c # cs) =
     (case digit_value c of None \<Rightarrow> None | Some d \<Rightarrow> digits_value (10 * acc + d) cs)"

definition decimal_value :: "string \<Rightarrow> int option" where
  "decimal_value s =
     (case s of
        [] \<Rightarrow> None
      | c # cs \<Rightarrow>
          if c = CHR ''-''
          then (if cs = [] then None else map_option (\<lambda>n. - int n) (digits_value 0 cs))
          else map_option int (digits_value 0 s))"

definition canonical_decimal :: "string \<Rightarrow> bool" where
  "canonical_decimal s =
     (case s of
        [] \<Rightarrow> False
      | c # cs \<Rightarrow>
          if c = CHR ''-'' then cs \<noteq> [] \<and> hd cs \<noteq> CHR ''0''
          else cs = [] \<or> c \<noteq> CHR ''0'')"

text \<open>\<open>toUpperCase\<close> and \<open>toLowerCase\<close>, on ASCII letters; other bytes are left alone.\<close>

definition upper_char :: "char \<Rightarrow> char" where
  "upper_char c =
     (case map_of (zip ''abcdefghijklmnopqrstuvwxyz'' ''ABCDEFGHIJKLMNOPQRSTUVWXYZ'') c of
        Some u \<Rightarrow> u
      | None \<Rightarrow> c)"

definition lower_char :: "char \<Rightarrow> char" where
  "lower_char c =
     (case map_of (zip ''ABCDEFGHIJKLMNOPQRSTUVWXYZ'' ''abcdefghijklmnopqrstuvwxyz'') c of
        Some l \<Rightarrow> l
      | None \<Rightarrow> c)"

definition toUpperCase :: "string \<Rightarrow> string" where
  "toUpperCase s = map upper_char s"

definition toLowerCase :: "string \<Rightarrow> string" where
  "toLowerCase s = map lower_char s"

definition startsWith :: "string \<Rightarrow> string \<Rightarrow> bool" where
  "startsWith s p = (take (length p) s = p)"

text \<open>\<open>parts.join(sep)\<close>.\<close>

fun join :: "string \<Rightarrow> string list \<Rightarrow> string" where
  "join sep [] = []"
| "join sep [x] = x"
| "join sep (x # y # ys) = x @ sep @ join sep (y # ys)"

text \<open>\<open>str_includes s p\<close>: the string \<open>p\<close> occurs in \<open>s\<close>.\<close>

fun str_includes :: "string \<Rightarrow> string \<Rightarrow> bool" where
  "str_includes [] p = (p = [])"
| "str_includes (c # cs) p = (startsWith (c # cs) p \<or> str_includes cs p)"

text \<open>
  The pattern \<open>/timeout/i\<close>: the word occurs somewhere, letters compared without case.
  Without the \<open>u\<close> flag no character outside ASCII is case-equal to an ASCII letter.
\<close>

definition matches_timeout :: "string \<Rightarrow> bool" where
  "matches_timeout s = str_includes (toLowerCase s) ''timeout''"

text \<open>
  The values that travel as query parameters, request bodies and response bodies.
  An object is the list of its own properties, in the order JavaScript enumerates them,
  with distinct keys.
\<close>

datatype jsval =
    JUndefined
  | JNull
  | JBool bool
  | JNum int
  | JStr string
  | JArr "jsval list"
  | JObj "(string \<times> jsval) list"

fun truthy :: "jsval \<Rightarrow> bool" where
  "truthy JUndefined = False"
| "truthy JNull = False"
| "truthy (JBool b) = b"
| "truthy (JNum n) = (n \<noteq> 0)"
| "truthy (JStr s) = (s \<noteq> [])"
| "truthy (JArr xs) = True"
| "truthy (JObj kvs) = True"

text \<open>An optional string field is truthy when it is present and not empty.\<close>

definition truthy_str :: "string option \<Rightarrow> bool" where
  "truthy_str s = (case s of None \<Rightarrow> False | Some t \<Rightarrow> t \<noteq> [])"

section \<open>The HTTP gateway: \<open>executeAmbariRequest\<close>\<close>

text \<open>The configuration read once at start-up.\<close>

record env =
  AMBARI_BASE_URL :: string
  AMBARI_USERNAME :: string
  AMBARI_PASSWORD :: string
  TIMEOUT_MS :: int

text \<open>The request configuration handed to axios.\<close>

record axios_config =
  cfg_url :: string
  cfg_method :: string
  cfg_auth :: "string \<times> string"
  cfg_timeout :: int
  cfg_params :: "(string \<times> jsval) list option"
  cfg_data :: "jsval option"
  cfg_headers :: "(string \<times> string) list"

text \<open>
  What axios answers: a response whose body has the type \<open>'d\<close> the caller reads it at,
  or an error that may carry the upstream's response, a connection code and a message.
  The bodies the handlers look into are typed as the upstream's API documents them;
  a field that is absent or null is \<open>None\<close>, and so is a body that is.
\<close>

record 'd axios_response =
  resp_status :: int
  resp_statusText :: string
  resp_data :: 'd

record axios_error =
  err_response :: "jsval axios_response option"
  err_code :: "string option"
  err_message :: "string option"

type_synonym 'd axios = "axios_config \<Rightarrow> axios_error + 'd axios_response"

text \<open>The success envelope \<open>{status, statusText, data}\<close>.\<close>

record 'd gateway_result =
  res_status :: int
  res_statusText :: string
  res_data :: 'd

text \<open>
  The \<open>details\<close> object of a failure, before \<open>JSON.stringify\<close> renders it into the
  error's \<open>diagnostics\<close> string; a field that is \<open>None\<close> is undefined and is left
  out of the rendering.
\<close>

record diagnostics =
  diag_url :: string
  diag_method :: string
  diag_params :: "(string \<times> jsval) list option"
  diag_timeoutMs :: int
  diag_code :: "string option"
  diag_status :: "int option"
  diag_statusText :: "string option"
  diag_timeout :: "bool option"
  diag_responseBody :: "jsval option"
  diag_message :: "string option"

datatype ErrorCode = InvalidRequest | MethodNotFound | InternalError

text \<open>
  What a function of the server throws: an \<open>McpError\<close> (code, message, diagnostics)
  or the runtime's \<open>TypeError\<close>.
\<close>

datatype error =
    McpError ErrorCode string "diagnostics option"
  | TypeError

definition build_config ::
  "env \<Rightarrow> string \<Rightarrow> string \<Rightarrow> (string \<times> jsval) list \<Rightarrow> jsval option \<Rightarrow> axios_config" where
  "build_config e meth path params body =
     \<lparr> cfg_url = AMBARI_BASE_URL e @ path,
       cfg_method = toLowerCase meth,
       cfg_auth = (AMBARI_USERNAME e, AMBARI_PASSWORD e),
       cfg_timeout = TIMEOUT_MS e,
       cfg_params = (if params \<noteq> [] then Some params else None),
       cfg_data = body,
       cfg_headers = [(''Content-Type'', ''application/json''),
                      (''X-Requested-By'', ''ambari-mcp-server'')] \<rparr>"

definition isTimeout :: "axios_error \<Rightarrow> bool" where
  "isTimeout err =
     (err_code err = Some ''ECONNABORTED'' \<or>
      matches_timeout (case err_message err of None \<Rightarrow> [] | Some m \<Rightarrow> m))"

definition error_status :: "axios_error \<Rightarrow> int option" where
  "error_status err = map_option resp_status (err_response err)"

definition error_statusText :: "axios_error \<Rightarrow> string option" where
  "error_statusText err = map_option resp_statusText (err_response err)"

definition status_truthy :: "int option \<Rightarrow> bool" where
  "status_truthy s = (case s of None \<Rightarrow> False | Some n \<Rightarrow> n \<noteq> 0)"

definition methodUpper :: "axios_config \<Rightarrow> string \<Rightarrow> string" where
  "methodUpper config meth =
     toUpperCase (if cfg_method config \<noteq> [] then cfg_method config else meth)"

definition summaryParts :: "axios_config \<Rightarrow> string \<Rightarrow> axios_error \<Rightarrow> string list" where
  "summaryParts config meth err =
     (let status = error_status err;
          statusText = error_statusText err;
          code = err_code err
      in [methodUpper config meth @ '' '' @ cfg_url config]
         @ (case status of
              None \<Rightarrow> []
            | Some n \<Rightarrow>
                if n \<noteq> 0
                then [''HTTP '' @ number_to_string n
                      @ (case statusText of
                           None \<Rightarrow> []
                         | Some t \<Rightarrow> if t \<noteq> [] then '' '' @ t else [])]
                else [])
         @ (case code of
              None \<Rightarrow> []
            | Some c \<Rightarrow> if c \<noteq> [] \<and> \<not> status_truthy status then [''Code '' @ c] else [])
         @ (if isTimeout err then [''Timeout''] else [])
         @ (if err_response err = None \<and> \<not> truthy_str code then [''No response''] else []))"

definition baseSummary :: "axios_config \<Rightarrow> string \<Rightarrow> axios_error \<Rightarrow> string" where
  "baseSummary config meth err = join '' | '' (summaryParts config meth err)"

definition details ::
  "env \<Rightarrow> axios_config \<Rightarrow> string \<Rightarrow> (string \<times> jsval) list \<Rightarrow> axios_error \<Rightarrow> diagnostics" where
  "details e config meth params err =
     \<lparr> diag_url = cfg_url config,
       diag_method = methodUpper config meth,
       diag_params = (if params \<noteq> [] then Some params else None),
       diag_timeoutMs = TIMEOUT_MS e,
       diag_code = err_code err,
       diag_status = error_status err,
       diag_statusText = error_statusText err,
       diag_timeout = (if isTimeout err then Some True else None),
       diag_responseBody =
         (case err_response err of
            None \<Rightarrow> None
          | Some r \<Rightarrow> if truthy (resp_data r) then Some (resp_data r) else None),
       diag_message =
         (case err_message err of
            None \<Rightarrow> None
          | Some m \<Rightarrow> if m \<noteq> [] \<and> m \<noteq> ''Error'' then Some m else None) \<rparr>"

text \<open>
  The gateway issues the request once. It returns what the caller gets (the envelope, or
  the error thrown) together with the requests it handed to axios, in order.
\<close>

definition executeAmbariRequest ::
  "env \<Rightarrow> 'd axios \<Rightarrow> string \<Rightarrow> string \<Rightarrow> (string \<times> jsval) list \<Rightarrow> jsval option
     \<Rightarrow> (error + 'd gateway_result) \<times> axios_config list" where
  "executeAmbariRequest e ax meth path params body =
     (let config = build_config e meth path params body
      in (case ax config of
            Inr response \<Rightarrow>
              Inr \<lparr> res_status = resp_status response,
                    res_statusText = resp_statusText response,
                    res_data = resp_data response \<rparr>
          | Inl err \<Rightarrow>
              Inl (McpError InternalError
                     (''Ambari API Error: '' @ baseSummary config meth err)
                     (Some (details e config meth params err))),
          [config]))"

text \<open>
  The cause tag as the specification words it: exactly one tag, by precedence (the
  upstream status, else the connection code, else the timeout, else no response).
\<close>

definition spec_cause_tag :: "axios_error \<Rightarrow> string" where
  "spec_cause_tag err =
     (if status_truthy (error_status err)
      then ''HTTP '' @ number_to_string (the (error_status err))
           @ (if truthy_str (error_statusText err) then '' '' @ the (error_statusText err) else [])
      else if truthy_str (err_code err) then ''Code '' @ the (err_code err)
      else if isTimeout err then ''Timeout''
      else ''No response'')"

definition spec_summary :: "axios_config \<Rightarrow> string \<Rightarrow> axios_error \<Rightarrow> string" where
  "spec_summary config meth err =
     join '' | '' [methodUpper config meth @ '' '' @ cfg_url config, spec_cause_tag err]"

section \<open>Tool executors\<close>

subsection \<open>\<open>ambari_clusters_getcluster\<close>\<close>

record getcluster_args =
  gc_clusterName :: string
  gc_fields :: "string option"

definition ambari_clusters_getcluster ::
  "env \<Rightarrow> 'd axios \<Rightarrow> getcluster_args \<Rightarrow> (error + 'd gateway_result) \<times> axios_config list" where
  "ambari_clusters_getcluster e ax args =
     (let params =
            (case gc_fields args of
               None \<Rightarrow> []
             | Some f \<Rightarrow> if f \<noteq> [] then [(''fields'', JStr f)] else [])
      in executeAmbariRequest e ax ''GET'' (''/clusters/'' @ gc_clusterName args) params None)"

subsection \<open>\<open>ambari_alerts_duplicatealertgroup\<close>\<close>

text \<open>
  The body of the source group as the executor reads it: \<open>data.AlertGroup.definitions\<close>.
  Reading a property of a missing \<open>data\<close> or \<open>AlertGroup\<close> throws.
\<close>

record alert_group =
  ag_definitions :: "jsval list option"
  ag_rest :: "(string \<times> jsval) list"

record alert_group_body =
  agb_AlertGroup :: "alert_group option"

record duplicatealertgroup_args =
  da_clusterName :: string
  da_sourceGroupId :: int
  da_newGroupName :: string

text \<open>
  \<open>Number(v)\<close> is the identity on a number. What the built-in makes of any other value
  (a string, a boolean, null, an array, an object) is the parameter \<open>coerce\<close>.
\<close>

definition js_Number :: "(jsval \<Rightarrow> jsval) \<Rightarrow> jsval \<Rightarrow> jsval" where
  "js_Number coerce v = (case v of JNum n \<Rightarrow> JNum n | _ \<Rightarrow> coerce v)"

text \<open>The callback of \<open>definitions.forEach\<close>: what one entry pushes on \<open>definitionIds\<close>.\<close>

fun pushed_definition_id :: "(jsval \<Rightarrow> jsval) \<Rightarrow> jsval \<Rightarrow> jsval list" where
  "pushed_definition_id coerce (JNum n) = [JNum n]"
| "pushed_definition_id coerce (JObj kvs) =
     (case map_of kvs ''id'' of
        None \<Rightarrow> []
      | Some v \<Rightarrow> [js_Number coerce v])"
| "pushed_definition_id coerce v = []"

definition definitionIds :: "(jsval \<Rightarrow> jsval) \<Rightarrow> alert_group \<Rightarrow> jsval list" where
  "definitionIds coerce sourceGroup =
     (case ag_definitions sourceGroup of
        None \<Rightarrow> []
      | Some defs \<Rightarrow> concat (map (pushed_definition_id coerce) defs))"

definition duplicate_body :: "string \<Rightarrow> jsval list \<Rightarrow> jsval" where
  "duplicate_body newGroupName ids =
     JObj [(''AlertGroup'', JObj [(''name'', JStr newGroupName), (''definitions'', JArr ids)])]"

definition ambari_alerts_duplicatealertgroup ::
  "env \<Rightarrow> (jsval \<Rightarrow> jsval) \<Rightarrow> alert_group_body option axios \<Rightarrow> 'r axios
     \<Rightarrow> duplicatealertgroup_args \<Rightarrow> (error + 'r gateway_result) \<times> axios_config list" where
  "ambari_alerts_duplicatealertgroup e coerce ax_read ax_write args =
     (case executeAmbariRequest e ax_read ''GET''
             (''/clusters/'' @ da_clusterName args @ ''/alert_groups/''
                @ number_to_string (da_sourceGroupId args))
             [(''fields'', JStr ''*'')] None of
        (Inl err, sent) \<Rightarrow> (Inl err, sent)
      | (Inr sourceGroupResponse, sent) \<Rightarrow>
          (case res_data sourceGroupResponse of
             None \<Rightarrow> (Inl TypeError, sent)
           | Some d \<Rightarrow>
               (case agb_AlertGroup d of
                  None \<Rightarrow> (Inl TypeError, sent)
                | Some sourceGroup \<Rightarrow>
                    (case executeAmbariRequest e ax_write ''POST''
                            (''/clusters/'' @ da_clusterName args @ ''/alert_groups'') []
                            (Some (duplicate_body (da_newGroupName args)
                                     (definitionIds coerce sourceGroup))) of
                       (r, sent') \<Rightarrow> (r, sent @ sent')))))"

subsection \<open>\<open>ambari_alerts_savealertsettings\<close>\<close>

record config_item =
  ci_properties :: "(string \<times> jsval) list option"
  ci_rest :: "(string \<times> jsval) list"

text \<open>A body \<open>{items: [...]}\<close>; \<open>None\<close> is a missing (or null) \<open>items\<close>.\<close>

record 'i items_body =
  body_items :: "'i list option"

record savealertsettings_args =
  sa_clusterName :: string
  sa_alertRepeatTolerance :: int

definition currentProperties :: "config_item items_body option \<Rightarrow> (string \<times> jsval) list" where
  "currentProperties d =
     (case d of
        None \<Rightarrow> []
      | Some b \<Rightarrow>
          (case body_items b of
             None \<Rightarrow> []
           | Some [] \<Rightarrow> []
           | Some (latestConfig # _) \<Rightarrow>
               (case ci_properties latestConfig of None \<Rightarrow> [] | Some ps \<Rightarrow> ps)))"

text \<open>\<open>{...currentProperties, alerts_repeat_tolerance: tolerance.toString()}\<close>.\<close>

definition updatedProperties ::
  "(int \<Rightarrow> string) \<Rightarrow> (string \<times> jsval) list \<Rightarrow> int \<Rightarrow> (string \<times> jsval) list" where
  "updatedProperties render current tolerance =
     AList.update ''alerts_repeat_tolerance'' (JStr (number_toString render tolerance)) current"

definition settings_body :: "(string \<times> jsval) list \<Rightarrow> jsval" where
  "settings_body props =
     JObj [(''Clusters'',
            JObj [(''desired_config'',
                   JObj [(''type'', JStr ''cluster-env''), (''properties'', JObj props)])])]"

definition ambari_alerts_savealertsettings ::
  "env \<Rightarrow> (int \<Rightarrow> string) \<Rightarrow> config_item items_body option axios \<Rightarrow> 'r axios
     \<Rightarrow> savealertsettings_args \<Rightarrow> (error + 'r gateway_result) \<times> axios_config list" where
  "ambari_alerts_savealertsettings e render ax_read ax_write args =
     (case executeAmbariRequest e ax_read ''GET''
             (''/clusters/'' @ sa_clusterName args @ ''/configurations'')
             [(''type'', JStr ''cluster-env''), (''fields'', JStr ''*'')] None of
        (Inl err, sent) \<Rightarrow> (Inl err, sent)
      | (Inr currentConfigResponse, sent) \<Rightarrow>
          (case executeAmbariRequest e ax_write ''PUT''
                  (''/clusters/'' @ sa_clusterName args) []
                  (Some (settings_body
                           (updatedProperties render
                              (currentProperties (res_data currentConfigResponse))
                              (sa_alertRepeatTolerance args)))) of
             (r, sent') \<Rightarrow> (r, sent @ sent')))"

section \<open>Resources\<close>

subsection \<open>\<open>parseResourceUri\<close>\<close>

record descriptor =
  rd_type :: string
  rd_clusterName :: "string option"
  rd_serviceName :: "string option"
  rd_hostName :: "string option"

text \<open>
  In a pattern, \<open>.\<close> matches any character but a line terminator: LF, CR, U+2028 and
  U+2029 (the last two are three bytes each in UTF-8). \<open>.+\<close> up to the closing \<open>$\<close>
  therefore matches a rest that is not empty and holds no line terminator.
\<close>

definition line_terminator_free :: "string \<Rightarrow> bool" where
  "line_terminator_free s =
     (CHR 0x0A \<notin> set s \<and> CHR 0x0D \<notin> set s
      \<and> \<not> str_includes s [CHR 0xE2, CHR 0x80, CHR 0xA8]
      \<and> \<not> str_includes s [CHR 0xE2, CHR 0x80, CHR 0xA9])"

definition dot_plus :: "string \<Rightarrow> bool" where
  "dot_plus s = (s \<noteq> [] \<and> line_terminator_free s)"

text \<open>\<open>uri.match(/^ambari:\/\/(.+)$/)\<close>: the captured path.\<close>

definition match_scheme :: "string \<Rightarrow> string option" where
  "match_scheme uri =
     (if startsWith uri ''ambari://'' \<and> dot_plus (drop (length ''ambari://'') uri)
      then Some (drop (length ''ambari://'') uri)
      else None)"

text \<open>
  \<open>s.match(/^lit([^\/]+)(?:\/(.+))?$/)\<close> for \<open>lit\<close> one of \<open>cluster/\<close> and
  \<open>service/\<close>: the name is the run of characters up to the next slash, and must not be
  empty; what follows is nothing (the second group is undefined) or a slash and a rest
  that \<open>.+\<close> matches.
\<close>

definition match_segment :: "string \<Rightarrow> string \<Rightarrow> (string \<times> string option) option" where
  "match_segment lit s =
     (if \<not> startsWith s lit then None
      else
        (let r = drop (length lit) s;
             name = takeWhile (\<lambda>c. c \<noteq> CHR ''/'') r;
             rest = dropWhile (\<lambda>c. c \<noteq> CHR ''/'') r
         in if name = [] then None
            else (case rest of
                    [] \<Rightarrow> Some (name, None)
                  | _ # t \<Rightarrow> if dot_plus t then Some (name, Some t) else None)))"

definition cluster_resource :: "string \<Rightarrow> string \<Rightarrow> descriptor" where
  "cluster_resource kind clusterName =
     \<lparr> rd_type = kind, rd_clusterName = Some clusterName,
       rd_serviceName = None, rd_hostName = None \<rparr>"

definition service_resource :: "string \<Rightarrow> string \<Rightarrow> string \<Rightarrow> descriptor" where
  "service_resource kind clusterName serviceName =
     \<lparr> rd_type = kind, rd_clusterName = Some clusterName,
       rd_serviceName = Some serviceName, rd_hostName = None \<rparr>"

text \<open>
  The \<open>cluster/\<close> branch. \<open>None\<close> means that the branch neither returned nor threw and
  control goes on to the \<open>host/\<close> test below it.
\<close>

definition parse_cluster :: "string \<Rightarrow> string \<Rightarrow> (error + descriptor) option" where
  "parse_cluster uri path =
     (case match_segment ''cluster/'' path of
        None \<Rightarrow>
          Some (Inl (McpError InvalidRequest (''Invalid cluster resource URI: '' @ uri) None))
      | Some (clusterName, subPathOpt) \<Rightarrow>
          (let subPath = (case subPathOpt of None \<Rightarrow> [] | Some sp \<Rightarrow> sp)
           in if subPath = [] then Some (Inr (cluster_resource ''cluster'' clusterName))
              else if subPath = ''services''
                then Some (Inr (cluster_resource ''services'' clusterName))
              else if subPath = ''hosts''
                then Some (Inr (cluster_resource ''hosts'' clusterName))
              else if subPath = ''alerts''
                then Some (Inr (cluster_resource ''alerts'' clusterName))
              else if subPath = ''alerts/summary''
                then Some (Inr (cluster_resource ''alerts-summary'' clusterName))
              else if subPath = ''services/stale-configs''
                then Some (Inr (cluster_resource ''stale-configs'' clusterName))
              else if subPath = ''requests/recent''
                then Some (Inr (cluster_resource ''recent-requests'' clusterName))
              else if subPath = ''configurations''
                then Some (Inr (cluster_resource ''configurations'' clusterName))
              else
                (case match_segment ''service/'' subPath of
                   None \<Rightarrow> None
                 | Some (serviceName, serviceSubPathOpt) \<Rightarrow>
                     (let serviceSubPath =
                            (case serviceSubPathOpt of None \<Rightarrow> [] | Some ssp \<Rightarrow> ssp)
                      in if serviceSubPath = []
                           then Some (Inr (service_resource ''service'' clusterName serviceName))
                         else if serviceSubPath = ''components''
                           then Some (Inr (service_resource ''service-components''
                                             clusterName serviceName))
                         else None))))"

definition parseResourceUri :: "string \<Rightarrow> error + descriptor" where
  "parseResourceUri uri =
     (case match_scheme uri of
        None \<Rightarrow> Inl (McpError InvalidRequest (''Invalid resource URI: '' @ uri) None)
      | Some path \<Rightarrow>
          if path = ''clusters''
          then Inr \<lparr> rd_type = ''clusters'', rd_clusterName = None,
                     rd_serviceName = None, rd_hostName = None \<rparr>
          else
            (case (if startsWith path ''cluster/'' then parse_cluster uri path else None) of
               Some outcome \<Rightarrow> outcome
             | None \<Rightarrow>
                 if startsWith path ''host/'' \<and> dot_plus (drop (length ''host/'') path)
                 then Inr \<lparr> rd_type = ''host'', rd_clusterName = None, rd_serviceName = None,
                            rd_hostName = Some (drop (length ''host/'') path) \<rparr>
                 else Inl (McpError InvalidRequest
                             (''Unsupported resource URI: '' @ uri) None)))"

text \<open>
  The addressing scheme as the specification words it: \<open>clusters\<close>; \<open>cluster/<name>\<close>,
  alone or followed by one of the sub-resource literals or by \<open>service/<name>\<close>, itself
  alone or followed by \<open>components\<close>; \<open>host/<name>\<close>. A name, the host's included, is
  one path segment that is not empty, and nothing may follow the shape. Each rule gives
  the descriptor the address resolves to.
\<close>

definition segment_name :: "string \<Rightarrow> bool" where
  "segment_name n = (n \<noteq> [] \<and> CHR ''/'' \<notin> set n)"

definition sub_resources :: "(string \<times> string) list" where
  "sub_resources =
     [(''services'', ''services''), (''hosts'', ''hosts''), (''alerts'', ''alerts''),
      (''alerts/summary'', ''alerts-summary''),
      (''services/stale-configs'', ''stale-configs''),
      (''requests/recent'', ''recent-requests''),
      (''configurations'', ''configurations'')]"

inductive resolves :: "string \<Rightarrow> descriptor \<Rightarrow> bool" where
  r_clusters:
    "resolves ''ambari://clusters''
       \<lparr> rd_type = ''clusters'', rd_clusterName = None,
         rd_serviceName = None, rd_hostName = None \<rparr>"
| r_cluster:
    "segment_name c \<Longrightarrow>
     resolves (''ambari://cluster/'' @ c) (cluster_resource ''cluster'' c)"
| r_sub:
    "segment_name c \<Longrightarrow> (suffix, kind) \<in> set sub_resources \<Longrightarrow>
     resolves (''ambari://cluster/'' @ c @ ''/'' @ suffix) (cluster_resource kind c)"
| r_service:
    "segment_name c \<Longrightarrow> segment_name sv \<Longrightarrow>
     resolves (''ambari://cluster/'' @ c @ ''/service/'' @ sv)
       (service_resource ''service'' c sv)"
| r_components:
    "segment_name c \<Longrightarrow> segment_name sv \<Longrightarrow>
     resolves (''ambari://cluster/'' @ c @ ''/service/'' @ sv @ ''/components'')
       (service_resource ''service-components'' c sv)"
| r_host:
    "segment_name h \<Longrightarrow>
     resolves (''ambari://host/'' @ h)
       \<lparr> rd_type = ''host'', rd_clusterName = None, rd_serviceName = None,
         rd_hostName = Some h \<rparr>"

text \<open>
  A descriptor is complete when its kind is in the closed set and exactly the parameters
  its kind requires are present, none of them empty.
\<close>

definition present :: "string option \<Rightarrow> bool" where
  "present p = (case p of None \<Rightarrow> False | Some n \<Rightarrow> n \<noteq> [])"

definition descriptor_complete :: "descriptor \<Rightarrow> bool" where
  "descriptor_complete d =
     (if rd_type d = ''clusters''
        then rd_clusterName d = None \<and> rd_serviceName d = None \<and> rd_hostName d = None
      else if rd_type d \<in> set (''cluster'' # map snd sub_resources)
        then present (rd_clusterName d) \<and> rd_serviceName d = None \<and> rd_hostName d = None
      else if rd_type d \<in> {''service'', ''service-components''}
        then present (rd_clusterName d) \<and> present (rd_serviceName d) \<and> rd_hostName d = None
      else if rd_type d = ''host''
        then rd_clusterName d = None \<and> rd_serviceName d = None \<and> present (rd_hostName d)
      else False)"

subsection \<open>Objects used as dictionaries\<close>

text \<open>
  \<open>alertsByState\<close> and \<open>staleByService\<close> are plain objects: reading \<open>obj[key]\<close> finds
  an own property, or else what every object inherits from \<open>Object.prototype\<close> under
  these names (a function or the prototype itself: truthy, and not an array), or else
  undefined.
\<close>

definition object_prototype_names :: "string list" where
  "object_prototype_names =
     [''constructor'', ''__defineGetter__'', ''__defineSetter__'', ''hasOwnProperty'',
      ''__lookupGetter__'', ''__lookupSetter__'', ''isPrototypeOf'',
      ''propertyIsEnumerable'', ''toString'', ''valueOf'', ''__proto__'',
      ''toLocaleString'']"

datatype 'a property = Own 'a | Inherited | Undefined

definition read_property :: "(string \<times> 'a) list \<Rightarrow> string \<Rightarrow> 'a property" where
  "read_property obj k =
     (case map_of obj k of
        Some v \<Rightarrow> Own v
      | None \<Rightarrow> if k \<in> set object_prototype_names then Inherited else Undefined)"

text \<open>
  An object enumerates its own string keys in two runs: first the array indices (the
  canonical decimal numerals of the numbers below \<open>2^32 - 1\<close>) in ascending numeric
  order, then every other key in the order of creation. \<open>obj[k] = v\<close> overwrites an
  own property where it stands and otherwise creates it at its place in that order.
\<close>

definition array_index :: "string \<Rightarrow> nat option" where
  "array_index k =
     (case digits_value 0 k of
        None \<Rightarrow> None
      | Some n \<Rightarrow>
          if k \<noteq> [] \<and> (k = ''0'' \<or> hd k \<noteq> CHR ''0'') \<and> n < 4294967295
          then Some n else None)"

fun insert_index :: "nat \<Rightarrow> string \<Rightarrow> 'a \<Rightarrow> (string \<times> 'a) list \<Rightarrow> (string \<times> 'a) list" where
  "insert_index n k v [] = [(k, v)]"
| "insert_index n k v (p # obj) =
     (case array_index (fst p) of
        None \<Rightarrow> (k, v) # p # obj
      | Some m \<Rightarrow> if m < n then p # insert_index n k v obj else (k, v) # p # obj)"

definition define_property :: "string \<Rightarrow> 'a \<Rightarrow> (string \<times> 'a) list \<Rightarrow> (string \<times> 'a) list" where
  "define_property k v obj =
     (case map_of obj k of
        Some old \<Rightarrow> AList.update k v obj
      | None \<Rightarrow>
          (case array_index k of
             None \<Rightarrow> obj @ [(k, v)]
           | Some n \<Rightarrow> insert_index n k v obj))"

text \<open>\<open>xs.forEach(f)\<close> for a callback that updates an accumulator and may throw.\<close>

fun forEach :: "('s \<Rightarrow> 'a \<Rightarrow> error + 's) \<Rightarrow> 'a list \<Rightarrow> 's \<Rightarrow> error + 's" where
  "forEach f [] s = Inr s"
| "forEach f (x # xs) s = (case f s x of Inl err \<Rightarrow> Inl err | Inr s' \<Rightarrow> forEach f xs s')"

text \<open>\<open>obj.KEY.length\<close> for an array-valued property; it throws when there is none.\<close>

definition property_length :: "(string \<times> 'a list) list \<Rightarrow> string \<Rightarrow> error + nat" where
  "property_length obj k =
     (case map_of obj k of None \<Rightarrow> Inl TypeError | Some xs \<Rightarrow> Inr (length xs))"

subsection \<open>The \<open>alerts\<close> handler\<close>

record alert =
  alert_state :: "string option"
  alert_rest :: "(string \<times> jsval) list"

record alert_item =
  item_Alert :: "alert option"
  item_rest :: "(string \<times> jsval) list"

text \<open>\<open>alert.Alert?.state || 'UNKNOWN'\<close>.\<close>

definition state_or_unknown :: "alert_item \<Rightarrow> string" where
  "state_or_unknown a =
     (case item_Alert a of
        None \<Rightarrow> ''UNKNOWN''
      | Some al \<Rightarrow>
          (case alert_state al of
             None \<Rightarrow> ''UNKNOWN''
           | Some s \<Rightarrow> if s \<noteq> [] then s else ''UNKNOWN''))"

definition group_alert ::
  "(string \<times> alert_item list) list \<Rightarrow> alert_item \<Rightarrow> error + (string \<times> alert_item list) list" where
  "group_alert alertsByState a =
     (let state = state_or_unknown a
      in case read_property alertsByState state of
           Own bucket \<Rightarrow> Inr (AList.update state (bucket @ [a]) alertsByState)
         | Inherited \<Rightarrow> Inl TypeError
         | Undefined \<Rightarrow> Inr alertsByState)"

record alerts_summary =
  sum_critical :: nat
  sum_warning :: nat
  sum_ok :: nat
  sum_unknown :: nat

record alerts_resource =
  ar_type :: string
  ar_clusterName :: string
  ar_timestamp :: string
  ar_summary :: alerts_summary
  ar_data :: "(string \<times> alert_item list) list"

definition items_of :: "'i items_body option \<Rightarrow> 'i list" where
  "items_of d =
     (case d of
        None \<Rightarrow> []
      | Some b \<Rightarrow> (case body_items b of None \<Rightarrow> [] | Some xs \<Rightarrow> xs))"

definition alerts_result ::
  "string \<Rightarrow> string \<Rightarrow> (string \<times> alert_item list) list \<Rightarrow> error + alerts_resource" where
  "alerts_result clusterName timestamp alertsByState =
     (case property_length alertsByState ''CRITICAL'' of
        Inl err \<Rightarrow> Inl err
      | Inr critical \<Rightarrow>
     (case property_length alertsByState ''WARNING'' of
        Inl err \<Rightarrow> Inl err
      | Inr warning \<Rightarrow>
     (case property_length alertsByState ''OK'' of
        Inl err \<Rightarrow> Inl err
      | Inr ok \<Rightarrow>
     (case property_length alertsByState ''UNKNOWN'' of
        Inl err \<Rightarrow> Inl err
      | Inr unknown \<Rightarrow>
          Inr \<lparr> ar_type = ''cluster-alerts'',
                ar_clusterName = clusterName,
                ar_timestamp = timestamp,
                ar_summary = \<lparr> sum_critical = critical, sum_warning = warning,
                               sum_ok = ok, sum_unknown = unknown \<rparr>,
                ar_data = alertsByState \<rparr>))))"

text \<open>
  The handler reads the clock twice: \<open>now\<close> is \<open>Date.now()\<close> before the request and
  \<open>timestamp\<close> is \<open>new Date().toISOString()\<close> after it.
\<close>

definition alerts_handler ::
  "env \<Rightarrow> alert_item items_body option axios \<Rightarrow> int \<Rightarrow> string \<Rightarrow> string
     \<Rightarrow> (error + alerts_resource) \<times> axios_config list" where
  "alerts_handler e ax now timestamp clusterName =
     (case executeAmbariRequest e ax ''GET'' (''/clusters/'' @ clusterName @ ''/alerts'')
             [(''fields'',
               JStr ''Alert/definition_name,Alert/service_name,Alert/component_name,Alert/host_name,Alert/state,Alert/text,Alert/timestamp''),
              (''_'', JNum now)] None of
        (Inl err, sent) \<Rightarrow> (Inl err, sent)
      | (Inr response, sent) \<Rightarrow>
          (case forEach group_alert (items_of (res_data response))
                  [(''CRITICAL'', []), (''WARNING'', []), (''OK'', []), (''UNKNOWN'', [])] of
             Inl err \<Rightarrow> (Inl err, sent)
           | Inr alertsByState \<Rightarrow> (alerts_result clusterName timestamp alertsByState, sent)))"

subsection \<open>The \<open>stale-configs\<close> handler\<close>

record host_roles =
  hr_service_name :: "string option"
  hr_rest :: "(string \<times> jsval) list"

record host_component =
  hc_HostRoles :: "host_roles option"
  hc_rest :: "(string \<times> jsval) list"

text \<open>\<open>item.HostRoles?.service_name\<close>, when it is truthy.\<close>

definition service_name_of :: "host_component \<Rightarrow> string option" where
  "service_name_of item =
     (case hc_HostRoles item of
        None \<Rightarrow> None
      | Some hr \<Rightarrow>
          (case hr_service_name hr of
             None \<Rightarrow> None
           | Some s \<Rightarrow> if s \<noteq> [] then Some s else None))"

definition group_stale ::
  "(string \<times> host_component list) list \<Rightarrow> host_component
     \<Rightarrow> error + (string \<times> host_component list) list" where
  "group_stale staleByService item =
     (case service_name_of item of
        None \<Rightarrow> Inr staleByService
      | Some serviceName \<Rightarrow>
          (let initialised =
                 (case read_property staleByService serviceName of
                    Undefined \<Rightarrow> define_property serviceName [] staleByService
                  | _ \<Rightarrow> staleByService)
           in case read_property initialised serviceName of
                Own members \<Rightarrow> Inr (AList.update serviceName (members @ [item]) initialised)
              | _ \<Rightarrow> Inl TypeError))"

record stale_summary =
  totalStaleComponents :: nat
  affectedServices :: nat

record stale_resource =
  sr_type :: string
  sr_clusterName :: string
  sr_timestamp :: string
  sr_summary :: stale_summary
  sr_data :: "(string \<times> host_component list) list"

definition stale_configs_handler ::
  "env \<Rightarrow> host_component items_body option axios \<Rightarrow> int \<Rightarrow> string \<Rightarrow> string
     \<Rightarrow> (error + stale_resource) \<times> axios_config list" where
  "stale_configs_handler e ax now timestamp clusterName =
     (case executeAmbariRequest e ax ''GET''
             (''/clusters/'' @ clusterName @ ''/host_components'')
             [(''fields'',
               JStr ''HostRoles/component_name,HostRoles/host_name,HostRoles/service_name,HostRoles/state,HostRoles/stale_configs''),
              (''HostRoles/stale_configs'', JStr ''true''),
              (''_'', JNum now)] None of
        (Inl err, sent) \<Rightarrow> (Inl err, sent)
      | (Inr response, sent) \<Rightarrow>
          (case forEach group_stale (items_of (res_data response)) [] of
             Inl err \<Rightarrow> (Inl err, sent)
           | Inr staleByService \<Rightarrow>
               (Inr \<lparr> sr_type = ''stale-configurations'',
                      sr_clusterName = clusterName,
                      sr_timestamp = timestamp,
                      sr_summary =
                        \<lparr> totalStaleComponents = length (items_of (res_data response)),
                          affectedServices = length staleByService \<rparr>,
                      sr_data = staleByService \<rparr>, sent)))"

section \<open>Reading what was thrown\<close>

definition thrown_message :: "error + 'a \<Rightarrow> string option" where
  "thrown_message r = (case r of Inl (McpError c m d) \<Rightarrow> Some m | _ \<Rightarrow> None)"

definition thrown_diagnostics :: "error + 'a \<Rightarrow> diagnostics option" where
  "thrown_diagnostics r = (case r of Inl (McpError c m d) \<Rightarrow> d | _ \<Rightarrow> None)"

section \<open>Example inputs\<close>

text \<open>The configuration the server falls back to when the environment sets nothing.\<close>

definition local_env :: env where
  "local_env =
     \<lparr> AMBARI_BASE_URL = ''http://localhost:8080/api/v1'', AMBARI_USERNAME = ''admin'',
       AMBARI_PASSWORD = ''admin'', TIMEOUT_MS = 30000 \<rparr>"

definition answer_ok :: "'d \<Rightarrow> 'd axios" where
  "answer_ok d =
     (\<lambda>config. Inr \<lparr> resp_status = 200, resp_statusText = ''OK'', resp_data = d \<rparr>)"

definition answer_error :: "axios_error \<Rightarrow> 'd axios" where
  "answer_error err = (\<lambda>config. Inl err)"

text \<open>The error axios raises when the configured timeout passes.\<close>

definition axios_timeout_error :: axios_error where
  "axios_timeout_error =
     \<lparr> err_response = None, err_code = Some ''ECONNABORTED'',
       err_message = Some ''timeout of 30000ms exceeded'' \<rparr>"

text \<open>A transport that reports a timeout in the message only.\<close>

definition message_timeout_error :: axios_error where
  "message_timeout_error =
     \<lparr> err_response = None, err_code = None,
       err_message = Some ''Timeout awaiting response'' \<rparr>"

definition prod_cluster_body :: jsval where
  "prod_cluster_body = JObj [(''Clusters'', JObj [(''cluster_name'', JStr ''prod'')])]"

subsection \<open>Alerts and host components used as examples\<close>

definition known_states :: "string list" where
  "known_states = [''CRITICAL'', ''WARNING'', ''OK'', ''UNKNOWN'']"

text \<open>An item without a state: no \<open>Alert\<close>, or no \<open>state\<close> in it, or an empty one.\<close>

definition state_missing :: "alert_item \<Rightarrow> bool" where
  "state_missing a =
     (case item_Alert a of
        None \<Rightarrow> True
      | Some al \<Rightarrow> \<not> truthy_str (alert_state al))"

definition alert_in_state :: "string option \<Rightarrow> string \<Rightarrow> alert_item" where
  "alert_in_state st name =
     \<lparr> item_Alert = Some \<lparr> alert_state = st,
                            alert_rest = [(''definition_name'', JStr name)] \<rparr>,
       item_rest = [] \<rparr>"

definition stale_component :: "string option \<Rightarrow> string \<Rightarrow> host_component" where
  "stale_component service name =
     \<lparr> hc_HostRoles = Some \<lparr> hr_service_name = service,
                              hr_rest = [(''component_name'', JStr name)] \<rparr>,
       hc_rest = [] \<rparr>"

text \<open>
  A component without a service name: no \<open>HostRoles\<close>, or no \<open>service_name\<close> in it, or
  an empty one. A component declares the service its \<open>service_name\<close> names.
\<close>

definition service_name_missing :: "host_component \<Rightarrow> bool" where
  "service_name_missing item =
     (case hc_HostRoles item of
        None \<Rightarrow> True
      | Some hr \<Rightarrow> \<not> truthy_str (hr_service_name hr))"

definition declares_service :: "host_component \<Rightarrow> string \<Rightarrow> bool" where
  "declares_service item k =
     (k \<noteq> [] \<and> map_option hr_service_name (hc_HostRoles item) = Some (Some k))"

text \<open>The group a dictionary holds for a service; empty when it holds none.\<close>

definition group_of :: "(string \<times> 'a list) list \<Rightarrow> string \<Rightarrow> 'a list" where
  "group_of obj k = (case map_of obj k of None \<Rightarrow> [] | Some xs \<Rightarrow> xs)"

text \<open>
  The ID a \<open>definitions\<close> entry stands for: a number stands for itself, an object that
  exposes \<open>id\<close> stands for \<open>Number(id)\<close> (the id itself when it is a number), and
  anything else stands for no ID.
\<close>

definition id_of_definition :: "(jsval \<Rightarrow> jsval) \<Rightarrow> jsval \<Rightarrow> jsval option" where
  "id_of_definition coerce d =
     (case d of
        JNum n \<Rightarrow> Some (JNum n)
      | JObj kvs \<Rightarrow> map_option (js_Number coerce) (map_of kvs ''id'')
      | _ \<Rightarrow> None)"

section \<open>Properties of the string functions\<close>

lemma toLowerCase_GET: "toLowerCase ''GET'' = ''get''"
  by (simp add: toLowerCase_def lower_char_def)

lemma toUpperCase_get: "toUpperCase ''get'' = ''GET''"
  by (simp add: toUpperCase_def upper_char_def)

lemma startsWith_iff: "startsWith s p \<longleftrightarrow> (\<exists>b. s = p @ b)"
proof
  assume "startsWith s p"
  then have "s = p @ drop (length p) s"
    by (metis append_take_drop_id startsWith_def)
  then show "\<exists>b. s = p @ b" ..
next
  assume "\<exists>b. s = p @ b"
  then show "startsWith s p" by (auto simp: startsWith_def)
qed

lemma str_includes_iff: "str_includes s p \<longleftrightarrow> (\<exists>a b. s = a @ p @ b)"
proof (induction s)
  case Nil
  then show ?case by auto
next
  case (Cons c cs)
  show ?case
  proof
    assume "str_includes (c # cs) p"
    then consider "startsWith (c # cs) p" | "str_includes cs p" by auto
    then show "\<exists>a b. c # cs = a @ p @ b"
    proof cases
      case 1
      then obtain b where "c # cs = p @ b" by (auto simp: startsWith_iff)
      then have "c # cs = [] @ p @ b" by simp
      then show ?thesis by blast
    next
      case 2
      then obtain a b where "cs = a @ p @ b" using Cons.IH by auto
      then have "c # cs = (c # a) @ p @ b" by simp
      then show ?thesis by blast
    qed
  next
    assume "\<exists>a b. c # cs = a @ p @ b"
    then obtain a b where ab: "c # cs = a @ p @ b" by blast
    show "str_includes (c # cs) p"
    proof (cases a)
      case Nil
      with ab have "startsWith (c # cs) p" by (auto simp: startsWith_iff)
      then show ?thesis by simp
    next
      case (Cons a0 as)
      with ab have "cs = as @ p @ b" by simp
      then have "str_includes cs p" using Cons.IH by blast
      then show ?thesis by simp
    qed
  qed
qed

section \<open>The gateway\<close>

text \<open>
  C9. Calling the get-cluster tool with \<open>clusterName = "prod"\<close> and no \<open>fields\<close> hands
  axios exactly one request: method \<open>get\<close>, the base URL followed by \<open>/clusters/prod\<close>,
  no query parameters and no body. When axios answers with a response, the tool returns
  the envelope \<open>{status, statusText, data}\<close> holding the response's status, status text
  and body unchanged.
\<close>

theorem getcluster_prod:
  "let request =
         \<lparr> cfg_url = AMBARI_BASE_URL e @ ''/clusters/prod'', cfg_method = ''get'',
           cfg_auth = (AMBARI_USERNAME e, AMBARI_PASSWORD e), cfg_timeout = TIMEOUT_MS e,
           cfg_params = None, cfg_data = None,
           cfg_headers = [(''Content-Type'', ''application/json''),
                          (''X-Requested-By'', ''ambari-mcp-server'')] \<rparr>;
       outcome =
         ambari_clusters_getcluster e ax \<lparr> gc_clusterName = ''prod'', gc_fields = None \<rparr>
   in snd outcome = [request] \<and>
      (\<forall>response. ax request = Inr response \<longrightarrow>
         fst outcome = Inr \<lparr> res_status = resp_status response,
                             res_statusText = resp_statusText response,
                             res_data = resp_data response \<rparr>)"
  by (simp add: ambari_clusters_getcluster_def executeAmbariRequest_def build_config_def
        toLowerCase_GET Let_def)

text \<open>The scenario at the default configuration, the upstream answering 200 with a body.\<close>

theorem getcluster_prod_witness:
  "ambari_clusters_getcluster local_env (answer_ok prod_cluster_body)
       \<lparr> gc_clusterName = ''prod'', gc_fields = None \<rparr> =
     (Inr \<lparr> res_status = 200, res_statusText = ''OK'', res_data = prod_cluster_body \<rparr>,
      [\<lparr> cfg_url = ''http://localhost:8080/api/v1/clusters/prod'', cfg_method = ''get'',
           cfg_auth = (''admin'', ''admin''), cfg_timeout = 30000,
           cfg_params = None, cfg_data = None,
           cfg_headers = [(''Content-Type'', ''application/json''),
                          (''X-Requested-By'', ''ambari-mcp-server'')] \<rparr>])"
  using getcluster_prod [of local_env "answer_ok prod_cluster_body"]
  by (simp add: Let_def local_env_def answer_ok_def prod_eq_iff)

text \<open>
  C2, as the code has it. The gateway strips nothing: the request it hands to axios
  carries the caller's mapping as it is, every key with its value, whether the value is
  present, empty or undefined; only a mapping with no key at all is sent as no
  parameters.
\<close>

theorem gateway_params_unchanged:
  "map cfg_params (snd (executeAmbariRequest e ax meth path params body)) =
     [if params = [] then None else Some params]"
  by (simp add: executeAmbariRequest_def build_config_def Let_def)

text \<open>
  C2 fails as stated: a key whose value is the empty string and a key whose value is
  undefined are both in the transmitted request.
\<close>

theorem gateway_keeps_empty_params:
  "map cfg_params
     (snd (executeAmbariRequest local_env (answer_ok JNull) ''GET'' ''/clusters''
             [(''fields'', JStr ''''), (''to'', JUndefined)] None)) =
     [Some [(''fields'', JStr ''''), (''to'', JUndefined)]]"
  by (simp add: executeAmbariRequest_def build_config_def Let_def)

text \<open>
  C6. When axios fails, the diagnostics of the error the gateway throws are flagged as a
  timeout if the connection code is \<open>ECONNABORTED\<close>, and also if the message contains
  the word \<open>timeout\<close> in any letter case, whatever the code is (also when there is
  none); with neither, the flag is left out.
\<close>

theorem timeout_classification:
  assumes "ax (build_config e meth path params body) = Inl err"
  shows "\<exists>d. thrown_diagnostics (fst (executeAmbariRequest e ax meth path params body)) = Some d
           \<and> diag_code d = err_code err
           \<and> (err_code err = Some ''ECONNABORTED'' \<longrightarrow> diag_timeout d = Some True)
           \<and> ((\<exists>m a b. err_message err = Some m \<and> toLowerCase m = a @ ''timeout'' @ b)
                \<longrightarrow> diag_timeout d = Some True)
           \<and> (err_code err \<noteq> Some ''ECONNABORTED''
                \<and> \<not> (\<exists>m a b. err_message err = Some m \<and> toLowerCase m = a @ ''timeout'' @ b)
                \<longrightarrow> diag_timeout d = None)"
proof -
  have m: "matches_timeout (case err_message err of None \<Rightarrow> [] | Some m \<Rightarrow> m)
             \<longleftrightarrow> (\<exists>m a b. err_message err = Some m \<and> toLowerCase m = a @ ''timeout'' @ b)"
    by (cases "err_message err")
       (simp_all add: matches_timeout_def str_includes_iff toLowerCase_def)
  show ?thesis
    using assms m
    by (simp add: executeAmbariRequest_def thrown_diagnostics_def details_def isTimeout_def
          Let_def)
qed

text \<open>
  Both ways at a concrete failure: the code alone suffices (axios's own timeout error),
  and so does the message alone (no code).
\<close>

theorem timeout_classification_witness:
  "map_option diag_timeout
     (thrown_diagnostics
        (fst (executeAmbariRequest local_env (answer_error axios_timeout_error :: jsval axios)
                ''GET'' ''/clusters'' [] None))) = Some (Some True)
   \<and> map_option diag_timeout
     (thrown_diagnostics
        (fst (executeAmbariRequest local_env (answer_error message_timeout_error :: jsval axios)
                ''GET'' ''/clusters'' [] None))) = Some (Some True)"
proof -
  have c: "err_code axios_timeout_error = Some ''ECONNABORTED''"
    by (simp add: axios_timeout_error_def)
  have "toLowerCase ''Timeout awaiting response'' = [] @ ''timeout'' @ '' awaiting response''"
    by (simp add: toLowerCase_def lower_char_def)
  then have m: "\<exists>m a b. err_message message_timeout_error = Some m
                  \<and> toLowerCase m = a @ ''timeout'' @ b"
    unfolding message_timeout_error_def by (intro exI conjI) (simp, assumption)
  have a1: "(answer_error axios_timeout_error :: jsval axios)
              (build_config local_env ''GET'' ''/clusters'' [] None) = Inl axios_timeout_error"
    and a2: "(answer_error message_timeout_error :: jsval axios)
              (build_config local_env ''GET'' ''/clusters'' [] None) = Inl message_timeout_error"
    by (simp_all add: answer_error_def)
  show ?thesis
    using timeout_classification
            [of "answer_error axios_timeout_error :: jsval axios" local_env
                "''GET''" "''/clusters''" "[]" None axios_timeout_error, OF a1]
          timeout_classification
            [of "answer_error message_timeout_error :: jsval axios" local_env
                "''GET''" "''/clusters''" "[]" None message_timeout_error, OF a2]
          c m
    by auto
qed

text \<open>
  C3, as the code has it. The message of a gateway failure is \<open>Ambari API Error:\<close>
  followed by the summary line: \<open>METHOD URL\<close> and then the cause tags, joined by
  \<open>|\<close>. The first tag is the one the precedence picks (the upstream's status, else
  the connection code, else the timeout, else no response). The tags are not exclusive:
  \<open>Timeout\<close> is added whenever a timeout is detected, also behind an HTTP or a Code
  tag, and \<open>No response\<close> is added whenever there is neither a response nor a code,
  also behind \<open>Timeout\<close>. This is stated for an error whose response, when it has one,
  carries a status other than 0.
\<close>

theorem failure_summary:
  assumes "ax (build_config e meth path params body) = Inl err"
    and "err_response err = None \<or> status_truthy (error_status err)"
  shows "\<exists>tags. thrown_message (fst (executeAmbariRequest e ax meth path params body)) =
                  Some (''Ambari API Error: ''
                        @ join '' | '' ((toUpperCase (toLowerCase meth) @ '' ''
                                          @ AMBARI_BASE_URL e @ path) # tags))
           \<and> tags \<noteq> []
           \<and> hd tags = spec_cause_tag err
           \<and> set (tl tags) \<subseteq> {''Timeout'', ''No response''}
           \<and> (''Timeout'' \<in> set tags \<longleftrightarrow> isTimeout err)
           \<and> (''No response'' \<in> set tags \<longleftrightarrow>
                err_response err = None \<and> \<not> truthy_str (err_code err))"
proof -
  let ?config = "build_config e meth path params body"
  let ?head = "toUpperCase (toLowerCase meth) @ '' '' @ AMBARI_BASE_URL e @ path"
  let ?tags = "tl (summaryParts ?config meth err)"
  have upper: "methodUpper ?config meth = toUpperCase (toLowerCase meth)"
    by (simp add: methodUpper_def build_config_def toLowerCase_def)
  have parts: "summaryParts ?config meth err = ?head # ?tags"
    by (simp add: summaryParts_def Let_def upper) (simp add: build_config_def)
  have msg: "thrown_message (fst (executeAmbariRequest e ax meth path params body)) =
               Some (''Ambari API Error: '' @ join '' | '' (?head # ?tags))"
    using assms(1) parts
    by (simp add: executeAmbariRequest_def thrown_message_def baseSummary_def Let_def)
  have props: "?tags \<noteq> [] \<and> hd ?tags = spec_cause_tag err
           \<and> set (tl ?tags) \<subseteq> {''Timeout'', ''No response''}
           \<and> (''Timeout'' \<in> set ?tags \<longleftrightarrow> isTimeout err)
           \<and> (''No response'' \<in> set ?tags \<longleftrightarrow>
                err_response err = None \<and> \<not> truthy_str (err_code err))"
    using assms(2)
    by (cases "err_response err"; cases "err_code err")
       (auto simp: summaryParts_def Let_def spec_cause_tag_def status_truthy_def
          error_status_def error_statusText_def truthy_str_def)
  show ?thesis using msg props by blast
qed

text \<open>At axios's own timeout error the first tag is the code and \<open>Timeout\<close> follows it.\<close>

theorem failure_summary_witness:
  "\<exists>tags. thrown_message
            (fst (executeAmbariRequest local_env (answer_error axios_timeout_error :: jsval axios)
                    ''GET'' ''/clusters'' [] None)) =
            Some (''Ambari API Error: ''
                  @ join '' | '' (''GET http://localhost:8080/api/v1/clusters'' # tags))
         \<and> hd tags = ''Code ECONNABORTED''
         \<and> ''Timeout'' \<in> set tags
         \<and> ''No response'' \<notin> set tags"
proof -
  have a: "(answer_error axios_timeout_error :: jsval axios)
             (build_config local_env ''GET'' ''/clusters'' [] None) = Inl axios_timeout_error"
    by (simp add: answer_error_def)
  have r: "err_response axios_timeout_error = None
             \<or> status_truthy (error_status axios_timeout_error)"
    by (simp add: axios_timeout_error_def)
  have t: "isTimeout axios_timeout_error"
    by (simp add: isTimeout_def axios_timeout_error_def)
  have s: "spec_cause_tag axios_timeout_error = ''Code ECONNABORTED''"
    by (simp add: spec_cause_tag_def axios_timeout_error_def status_truthy_def
          error_status_def truthy_str_def)
  have c: "truthy_str (err_code axios_timeout_error)"
    by (simp add: axios_timeout_error_def truthy_str_def)
  have u: "toUpperCase (toLowerCase ''GET'') = ''GET''"
    by (simp add: toLowerCase_GET toUpperCase_get)
  show ?thesis
    using failure_summary
            [of "answer_error axios_timeout_error :: jsval axios" local_env
                "''GET''" "''/clusters''" "[]" None axios_timeout_error, OF a r]
          t s c u
    by (auto simp: local_env_def)
qed

text \<open>
  C3 fails as stated: at axios's own timeout error the summary carries two cause tags,
  where the claim's single tag by precedence gives the code alone.
\<close>

theorem timeout_summary_two_tags:
  "thrown_message
     (fst (executeAmbariRequest local_env (answer_error axios_timeout_error :: jsval axios)
             ''GET'' ''/clusters'' [] None)) =
     Some ''Ambari API Error: GET http://localhost:8080/api/v1/clusters | Code ECONNABORTED | Timeout''
   \<and> spec_summary (build_config local_env ''GET'' ''/clusters'' [] None) ''GET''
        axios_timeout_error =
     ''GET http://localhost:8080/api/v1/clusters | Code ECONNABORTED''"
  by (simp add: executeAmbariRequest_def thrown_message_def baseSummary_def summaryParts_def
        spec_summary_def spec_cause_tag_def methodUpper_def build_config_def Let_def
        answer_error_def axios_timeout_error_def local_env_def isTimeout_def
        error_status_def error_statusText_def status_truthy_def truthy_str_def
        toLowerCase_GET toUpperCase_get)

section \<open>The resource URI parser\<close>

lemma match_segment_fwd:
  assumes m: "match_segment lit s = Some (n, r)"
  shows "segment_name n \<and>
     (case r of None \<Rightarrow> s = lit @ n | Some t \<Rightarrow> dot_plus t \<and> s = lit @ n @ CHR ''/'' # t)"
proof -
  let ?P = "\<lambda>c. c \<noteq> CHR ''/''"
  from m have sw: "startsWith s lit"
    by (simp add: match_segment_def split: if_splits)
  then obtain b where s: "s = lit @ b" unfolding startsWith_iff ..
  from m sw s have m': "(let name = takeWhile ?P b; rest = dropWhile ?P b
         in if name = [] then None
            else (case rest of
                    [] \<Rightarrow> Some (name, None)
                  | _ # t \<Rightarrow> if dot_plus t then Some (name, Some t) else None)) = Some (n, r)"
    by (simp add: match_segment_def)
  then have n: "n = takeWhile ?P b" and ne: "takeWhile ?P b \<noteq> []"
    by (auto simp: Let_def split: if_splits list.splits)
  have seg: "segment_name n"
    unfolding segment_name_def n using ne set_takeWhileD [of "CHR ''/''" ?P b] by blast
  show ?thesis
  proof (cases "dropWhile ?P b")
    case Nil
    then have "b = n" unfolding n by (metis append_Nil2 takeWhile_dropWhile_id)
    moreover from m' Nil ne have "r = None"
      by (simp add: Let_def)
    ultimately show ?thesis using seg s by simp
  next
    case (Cons c t)
    then have "\<not> ?P c" using hd_dropWhile [of ?P b] by simp
    then have c: "c = CHR ''/''" by simp
    have "b = n @ c # t" unfolding n using Cons takeWhile_dropWhile_id [of ?P b] by simp
    moreover from m' Cons ne have "r = Some t \<and> dot_plus t"
      by (simp add: Let_def split: if_splits)
    ultimately show ?thesis using seg s c by simp
  qed
qed

lemma match_segment_bwd:
  assumes seg: "segment_name n"
    and a: "(case r of None \<Rightarrow> s = lit @ n | Some t \<Rightarrow> dot_plus t \<and> s = lit @ n @ CHR ''/'' # t)"
  shows "match_segment lit s = Some (n, r)"
proof -
  let ?P = "\<lambda>c. c \<noteq> CHR ''/''"
  from seg have all: "\<forall>x\<in>set n. ?P x" and ne: "n \<noteq> []"
    by (auto simp: segment_name_def)
  show ?thesis
  proof (cases r)
    case None
    with a have s: "s = lit @ n" by simp
    have tw: "takeWhile ?P n = n" and dw: "dropWhile ?P n = []" using all by simp_all
    have sw: "startsWith (lit @ n) lit" by (simp add: startsWith_def)
    show ?thesis unfolding s None match_segment_def
      by (simp add: Let_def sw tw dw ne)
  next
    case (Some t)
    with a have s: "s = lit @ n @ CHR ''/'' # t" and dp: "dot_plus t" by simp_all
    have tw: "takeWhile ?P (n @ CHR ''/'' # t) = n"
      and dw: "dropWhile ?P (n @ CHR ''/'' # t) = CHR ''/'' # t"
      using all by simp_all
    have sw: "startsWith (lit @ n @ CHR ''/'' # t) lit" by (simp add: startsWith_def)
    show ?thesis unfolding s Some match_segment_def
      by (simp add: Let_def sw tw dw ne dp)
  qed
qed

lemma line_terminator_free_append:
  "line_terminator_free (a @ b) \<Longrightarrow> line_terminator_free a \<and> line_terminator_free b"
proof -
  have inc: "str_includes a p \<Longrightarrow> str_includes (a @ b) p"
    and inc': "str_includes b p \<Longrightarrow> str_includes (a @ b) p" for p
  proof -
    show "str_includes a p \<Longrightarrow> str_includes (a @ b) p"
    proof -
      assume "str_includes a p"
      then obtain x y where "a = x @ p @ y" by (auto simp: str_includes_iff)
      then have "a @ b = x @ p @ (y @ b)" by simp
      then show ?thesis unfolding str_includes_iff by blast
    qed
    show "str_includes b p \<Longrightarrow> str_includes (a @ b) p"
    proof -
      assume "str_includes b p"
      then obtain x y where "b = x @ p @ y" by (auto simp: str_includes_iff)
      then have "a @ b = (a @ x) @ p @ y" by simp
      then show ?thesis unfolding str_includes_iff by blast
    qed
  qed
  assume "line_terminator_free (a @ b)"
  then show ?thesis
    unfolding line_terminator_free_def using inc inc' by auto
qed

lemma line_terminator_free_scheme:
  "line_terminator_free (''ambari://'' @ p) = line_terminator_free p"
  by (simp add: line_terminator_free_def startsWith_def)

lemma match_scheme_iff:
  "match_scheme uri = Some p \<longleftrightarrow> uri = ''ambari://'' @ p \<and> dot_plus p"
proof
  assume m: "match_scheme uri = Some p"
  then have sw: "startsWith uri ''ambari://''" and p: "p = drop (length ''ambari://'') uri"
    and dp: "dot_plus p"
    by (auto simp: match_scheme_def split: if_splits)
  from sw obtain b where "uri = ''ambari://'' @ b" unfolding startsWith_iff ..
  with p dp show "uri = ''ambari://'' @ p \<and> dot_plus p" by simp
next
  assume "uri = ''ambari://'' @ p \<and> dot_plus p"
  then show "match_scheme uri = Some p"
    by (simp add: match_scheme_def startsWith_def)
qed

lemma match_segment_rest:
  "match_segment lit s = Some (n, Some t) \<Longrightarrow> t \<noteq> []"
  using match_segment_fwd [of lit s n "Some t"] by (auto simp: dot_plus_def)

lemma descriptor_complete_cluster:
  "segment_name c \<Longrightarrow> kind \<in> set (''cluster'' # map snd sub_resources) \<Longrightarrow>
     descriptor_complete (cluster_resource kind c)"
  by (auto simp: descriptor_complete_def cluster_resource_def present_def segment_name_def
        sub_resources_def)

lemma descriptor_complete_service:
  "segment_name c \<Longrightarrow> segment_name sv \<Longrightarrow> kind \<in> {''service'', ''service-components''} \<Longrightarrow>
     descriptor_complete (service_resource kind c sv)"
  by (auto simp: descriptor_complete_def service_resource_def present_def segment_name_def
        sub_resources_def)

text \<open>
  What a partially filled descriptor is: a kind outside the closed set, a parameter the
  kind requires that is missing or empty, or a parameter the kind does not take.
\<close>

lemma descriptor_incomplete:
  "\<not> descriptor_complete \<lparr> rd_type = ''nodes'', rd_clusterName = Some ''prod'',
                            rd_serviceName = None, rd_hostName = None \<rparr>"
  "\<not> descriptor_complete \<lparr> rd_type = ''cluster'', rd_clusterName = None,
                            rd_serviceName = None, rd_hostName = None \<rparr>"
  "\<not> descriptor_complete \<lparr> rd_type = ''alerts-summary'', rd_clusterName = Some '''',
                            rd_serviceName = None, rd_hostName = None \<rparr>"
  "\<not> descriptor_complete \<lparr> rd_type = ''service'', rd_clusterName = Some ''prod'',
                            rd_serviceName = None, rd_hostName = None \<rparr>"
  "\<not> descriptor_complete \<lparr> rd_type = ''service-components'', rd_clusterName = Some ''prod'',
                            rd_serviceName = Some '''', rd_hostName = None \<rparr>"
  "\<not> descriptor_complete \<lparr> rd_type = ''host'', rd_clusterName = None,
                            rd_serviceName = None, rd_hostName = Some '''' \<rparr>"
  "\<not> descriptor_complete \<lparr> rd_type = ''clusters'', rd_clusterName = Some ''prod'',
                            rd_serviceName = None, rd_hostName = None \<rparr>"
  by (simp_all add: descriptor_complete_def present_def sub_resources_def)

lemma parse_cluster_Inl:
  "parse_cluster uri path = Some (Inl err) \<Longrightarrow> \<exists>msg. err = McpError InvalidRequest msg None"
  by (auto simp: parse_cluster_def Let_def split: option.splits if_splits prod.splits)

lemma parse_cluster_Inr:
  assumes "parse_cluster uri path = Some (Inr d)"
  shows "resolves (''ambari://'' @ path) d \<and> descriptor_complete d"
proof -
  from assms obtain c spo where ms: "match_segment ''cluster/'' path = Some (c, spo)"
    by (auto simp: parse_cluster_def split: option.splits)
  from match_segment_fwd [OF ms] have seg: "segment_name c"
    and shape: "(case spo of None \<Rightarrow> path = ''cluster/'' @ c
                  | Some t \<Rightarrow> dot_plus t \<and> path = ''cluster/'' @ c @ CHR ''/'' # t)"
    by simp_all
  show ?thesis
  proof (cases spo)
    case None
    with assms ms have d: "d = cluster_resource ''cluster'' c"
      by (simp add: parse_cluster_def)
    from None shape have "''ambari://'' @ path = ''ambari://cluster/'' @ c" by simp
    then show ?thesis
      using d r_cluster [OF seg] descriptor_complete_cluster [OF seg, of "''cluster''"]
      by simp
  next
    case (Some sp)
    with shape have path: "''ambari://'' @ path = ''ambari://cluster/'' @ c @ ''/'' @ sp"
      and ne: "sp \<noteq> []"
      by (simp_all add: dot_plus_def)
    consider (lit) kind where "(sp, kind) \<in> set sub_resources" "d = cluster_resource kind c"
      | (svc) sv sspo where "match_segment ''service/'' sp = Some (sv, sspo)"
          "sspo = None \<and> d = service_resource ''service'' c sv
           \<or> sspo = Some ''components'' \<and> d = service_resource ''service-components'' c sv"
      using assms ms Some ne
      by (auto simp: parse_cluster_def Let_def sub_resources_def
            dest: match_segment_rest
            split: option.splits if_splits prod.splits)
    then show ?thesis
    proof cases
      case lit
      then have "kind \<in> set (''cluster'' # map snd sub_resources)" by force
      then show ?thesis
        using lit path r_sub [OF seg lit(1)] descriptor_complete_cluster [OF seg] by simp
    next
      case svc
      from match_segment_fwd [OF svc(1)] have seg': "segment_name sv"
        and shape': "(case sspo of None \<Rightarrow> sp = ''service/'' @ sv
                  | Some t \<Rightarrow> dot_plus t \<and> sp = ''service/'' @ sv @ CHR ''/'' # t)"
        by simp_all
      from svc(2) show ?thesis
      proof
        assume a: "sspo = None \<and> d = service_resource ''service'' c sv"
        with shape' path have "''ambari://'' @ path = ''ambari://cluster/'' @ c @ ''/service/'' @ sv"
          by simp
        then show ?thesis
          using a r_service [OF seg seg'] descriptor_complete_service [OF seg seg', of "''service''"]
          by simp
      next
        assume a: "sspo = Some ''components'' \<and> d = service_resource ''service-components'' c sv"
        with shape' path have
          "''ambari://'' @ path = ''ambari://cluster/'' @ c @ ''/service/'' @ sv @ ''/components''"
          by simp
        then show ?thesis
          using a r_components [OF seg seg']
            descriptor_complete_service [OF seg seg', of "''service-components''"]
          by simp
      qed
    qed
  qed
qed

lemma parse_error:
  "parseResourceUri uri = Inl err \<Longrightarrow> \<exists>msg. err = McpError InvalidRequest msg None"
  by (auto simp: parseResourceUri_def split: option.splits if_splits dest: parse_cluster_Inl)

lemma parse_sound:
  assumes "parseResourceUri uri = Inr d"
  shows "(resolves uri d
          \<or> (\<exists>h. h \<noteq> [] \<and> uri = ''ambari://host/'' @ h
                \<and> d = \<lparr> rd_type = ''host'', rd_clusterName = None,
                          rd_serviceName = None, rd_hostName = Some h \<rparr>))
         \<and> line_terminator_free uri \<and> descriptor_complete d"
proof -
  from assms obtain path where ms: "match_scheme uri = Some path"
    by (cases "match_scheme uri") (simp_all add: parseResourceUri_def)
  then have uri: "uri = ''ambari://'' @ path" and dp: "dot_plus path"
    by (simp_all add: match_scheme_iff)
  then have ltf: "line_terminator_free uri"
    by (simp only: line_terminator_free_scheme dot_plus_def)
  define through where
    "through = (if startsWith path ''cluster/'' then parse_cluster uri path else None)"
  define hostName where "hostName = drop (length ''host/'') path"
  have body: "(if path = ''clusters''
          then Inr \<lparr> rd_type = ''clusters'', rd_clusterName = None,
                     rd_serviceName = None, rd_hostName = None \<rparr>
          else
            (case through of
               Some outcome \<Rightarrow> outcome
             | None \<Rightarrow>
                 if startsWith path ''host/'' \<and> dot_plus hostName
                 then Inr \<lparr> rd_type = ''host'', rd_clusterName = None, rd_serviceName = None,
                            rd_hostName = Some hostName \<rparr>
                 else Inl (McpError InvalidRequest
                             (''Unsupported resource URI: '' @ uri) None))) = Inr d"
    using assms unfolding parseResourceUri_def ms through_def hostName_def by simp
  show ?thesis
  proof (cases "path = ''clusters''")
    case True
    with body have "d = \<lparr> rd_type = ''clusters'', rd_clusterName = None,
                     rd_serviceName = None, rd_hostName = None \<rparr>" by simp
    then show ?thesis using True uri ltf r_clusters
      by (simp add: descriptor_complete_def)
  next
    case False
    show ?thesis
    proof (cases through)
      case (Some outcome)
      with body False have "outcome = Inr d" by simp
      with Some have "parse_cluster uri path = Some (Inr d)"
        unfolding through_def by (simp split: if_splits)
      from parse_cluster_Inr [OF this] show ?thesis using uri ltf by simp
    next
      case None
      with body False have sw: "startsWith path ''host/''" and dh: "dot_plus hostName"
        and d: "d = \<lparr> rd_type = ''host'', rd_clusterName = None, rd_serviceName = None,
                            rd_hostName = Some hostName \<rparr>"
        by (simp_all split: if_splits)
      from sw obtain h where p: "path = ''host/'' @ h" unfolding startsWith_iff ..
      then have hn: "hostName = h" unfolding hostName_def by simp
      with dh have h: "h \<noteq> []" by (simp add: dot_plus_def)
      from p uri have "uri = ''ambari://host/'' @ h" by simp
      then show ?thesis using d h hn ltf
        by (simp add: descriptor_complete_def present_def sub_resources_def)
    qed
  qed
qed

lemma parse_host_remainder:
  assumes h: "h \<noteq> []" and ltf: "line_terminator_free (''ambari://host/'' @ h)"
  shows "parseResourceUri (''ambari://host/'' @ h) =
           Inr \<lparr> rd_type = ''host'', rd_clusterName = None, rd_serviceName = None,
                  rd_hostName = Some h \<rparr>"
proof -
  let ?path = "''host/'' @ h"
  define uri where "uri = ''ambari://host/'' @ h"
  have u: "uri = ''ambari://'' @ ?path" by (simp add: uri_def)
  have lp: "line_terminator_free ?path"
    using ltf unfolding uri_def [symmetric] u line_terminator_free_scheme .
  then have dpp: "dot_plus ?path" by (simp add: dot_plus_def)
  then have ms: "match_scheme uri = Some ?path" unfolding match_scheme_iff using u by simp
  from lp have "line_terminator_free h"
    using line_terminator_free_append [of "''host/''" h] by simp
  with h have dh: "dot_plus h" by (simp add: dot_plus_def)
  have "\<not> startsWith ?path ''cluster/''" by (simp add: startsWith_def)
  moreover have "startsWith ?path ''host/''" by (simp add: startsWith_def)
  moreover have "?path \<noteq> ''clusters''" by simp
  ultimately have "parseResourceUri uri =
           Inr \<lparr> rd_type = ''host'', rd_clusterName = None, rd_serviceName = None,
                  rd_hostName = Some h \<rparr>"
    unfolding parseResourceUri_def using dh
    by (simp add: ms)
  then show ?thesis unfolding uri_def .
qed

lemma parse_complete:
  assumes r: "resolves uri d" and ltf: "line_terminator_free uri"
  shows "parseResourceUri uri = Inr d"
  using r
proof (cases rule: resolves.cases)
  case r_clusters
  have "match_scheme ''ambari://clusters'' = Some ''clusters''"
    unfolding match_scheme_iff
    by (simp add: dot_plus_def line_terminator_free_def startsWith_def)
  then show ?thesis using r_clusters by (simp add: parseResourceUri_def)
next
  case (r_cluster c)
  let ?path = "''cluster/'' @ c"
  have u: "uri = ''ambari://'' @ ?path" using r_cluster by simp
  have "dot_plus ?path"
    using ltf unfolding u line_terminator_free_scheme by (simp add: dot_plus_def)
  then have ms: "match_scheme uri = Some ?path" unfolding match_scheme_iff using u by simp
  have seg: "match_segment ''cluster/'' ?path = Some (c, None)"
    using match_segment_bwd [where n = c and r = None and s = "?path" and lit = "''cluster/''"] r_cluster by simp
  have sw: "startsWith ?path ''cluster/''" by (simp add: startsWith_def)
  have ne: "?path \<noteq> ''clusters''" by simp
  show ?thesis
    unfolding parseResourceUri_def using r_cluster(2)
    by (simp only: ms option.case ne if_False sw if_True parse_cluster_def seg prod.case Let_def; simp)
next
  case (r_sub c suffix kind)
  let ?path = "''cluster/'' @ c @ ''/'' @ suffix"
  have u: "uri = ''ambari://'' @ ?path" using r_sub by simp
  have lp: "line_terminator_free ?path"
    using ltf unfolding u line_terminator_free_scheme .
  then have dpp: "dot_plus ?path" by (simp add: dot_plus_def)
  then have ms: "match_scheme uri = Some ?path" unfolding match_scheme_iff using u by simp
  have "?path = (''cluster/'' @ c @ ''/'') @ suffix" by simp
  with lp have "line_terminator_free suffix"
    using line_terminator_free_append [of "''cluster/'' @ c @ ''/''" suffix] by simp
  moreover have sne: "suffix \<noteq> []" using r_sub(4) by (auto simp: sub_resources_def)
  ultimately have "dot_plus suffix" by (simp add: dot_plus_def)
  then have seg: "match_segment ''cluster/'' ?path = Some (c, Some suffix)"
    using match_segment_bwd [where n = c and r = "Some suffix" and s = "?path" and lit = "''cluster/''"] r_sub by simp
  have sw: "startsWith ?path ''cluster/''" by (simp add: startsWith_def)
  have ne: "?path \<noteq> ''clusters''" by simp
  have "parse_cluster uri ?path = Some (Inr (cluster_resource kind c))"
    unfolding parse_cluster_def using r_sub(4)
    by (simp only: seg option.case prod.case Let_def; auto simp: sub_resources_def)
  then show ?thesis
    unfolding parseResourceUri_def using r_sub(2)
    by (simp only: ms option.case ne if_False sw if_True; simp)
next
  case (r_service c sv)
  let ?sp = "''service/'' @ sv"
  let ?path = "''cluster/'' @ c @ ''/'' @ ?sp"
  have u: "uri = ''ambari://'' @ ?path" using r_service by simp
  have lp: "line_terminator_free ?path"
    using ltf unfolding u line_terminator_free_scheme .
  then have dpp: "dot_plus ?path" by (simp add: dot_plus_def)
  then have ms: "match_scheme uri = Some ?path" unfolding match_scheme_iff using u by simp
  have "?path = (''cluster/'' @ c @ ''/'') @ ?sp" by simp
  with lp have "line_terminator_free ?sp"
    using line_terminator_free_append [of "''cluster/'' @ c @ ''/''" ?sp] by simp
  then have "dot_plus ?sp" by (simp add: dot_plus_def)
  then have seg: "match_segment ''cluster/'' ?path = Some (c, Some ?sp)"
    using match_segment_bwd [where n = c and r = "Some ?sp" and s = "?path" and lit = "''cluster/''"] r_service by simp
  have seg': "match_segment ''service/'' ?sp = Some (sv, None)"
    using match_segment_bwd [where n = sv and r = None and s = "?sp" and lit = "''service/''"] r_service by simp
  have sw: "startsWith ?path ''cluster/''" by (simp add: startsWith_def)
  have ne: "?path \<noteq> ''clusters''" by simp
  have "parse_cluster uri ?path = Some (Inr (service_resource ''service'' c sv))"
    unfolding parse_cluster_def
    by (simp only: seg seg' option.case prod.case Let_def; simp)
  then show ?thesis
    unfolding parseResourceUri_def using r_service(2)
    by (simp only: ms option.case ne if_False sw if_True; simp)
next
  case (r_components c sv)
  let ?sp = "''service/'' @ sv @ ''/components''"
  let ?path = "''cluster/'' @ c @ ''/'' @ ?sp"
  have u: "uri = ''ambari://'' @ ?path" using r_components by simp
  have lp: "line_terminator_free ?path"
    using ltf unfolding u line_terminator_free_scheme .
  then have dpp: "dot_plus ?path" by (simp add: dot_plus_def)
  then have ms: "match_scheme uri = Some ?path" unfolding match_scheme_iff using u by simp
  have "?path = (''cluster/'' @ c @ ''/'') @ ?sp" by simp
  with lp have "line_terminator_free ?sp"
    using line_terminator_free_append [of "''cluster/'' @ c @ ''/''" ?sp] by simp
  then have "dot_plus ?sp" by (simp add: dot_plus_def)
  then have seg: "match_segment ''cluster/'' ?path = Some (c, Some ?sp)"
    using match_segment_bwd [where n = c and r = "Some ?sp" and s = "?path" and lit = "''cluster/''"] r_components by simp
  have "dot_plus ''components''"
    by (simp add: dot_plus_def line_terminator_free_def startsWith_def)
  then have seg': "match_segment ''service/'' ?sp = Some (sv, Some ''components'')"
    using match_segment_bwd [where n = sv and r = "Some ''components''" and s = "?sp" and lit = "''service/''"] r_components
    by simp
  have sw: "startsWith ?path ''cluster/''" by (simp add: startsWith_def)
  have ne: "?path \<noteq> ''clusters''" by simp
  have "parse_cluster uri ?path = Some (Inr (service_resource ''service-components'' c sv))"
    unfolding parse_cluster_def
    by (simp only: seg seg' option.case prod.case Let_def; simp)
  then show ?thesis
    unfolding parseResourceUri_def using r_components(2)
    by (simp only: ms option.case ne if_False sw if_True; simp)
next
  case (r_host h)
  then have "h \<noteq> []" by (simp add: segment_name_def)
  from parse_host_remainder [OF this] ltf r_host show ?thesis by simp
qed

text \<open>
  C4, as the code has it. The parser is a function of the URI alone: every string gets
  exactly one outcome. An address that matches the scheme's grammar and holds no line
  terminator resolves to the descriptor the grammar gives it, and that descriptor is
  complete. An address \<open>ambari://host/<rest>\<close> whose rest is not empty and holds no line
  terminator resolves to the host descriptor with the whole rest as the host name, also
  when the rest is not one path segment. Every other string (no \<open>ambari://\<close> prefix, a
  path of no recognized shape, an empty name, or a line terminator anywhere) is refused
  with an \<open>InvalidRequest\<close> error, and no descriptor is returned.
\<close>

theorem parse_total:
  "(line_terminator_free uri \<and> resolves uri d \<longrightarrow>
      parseResourceUri uri = Inr d \<and> descriptor_complete d)
   \<and> (line_terminator_free uri \<and> h \<noteq> [] \<and> uri = ''ambari://host/'' @ h \<longrightarrow>
      parseResourceUri uri =
        Inr \<lparr> rd_type = ''host'', rd_clusterName = None, rd_serviceName = None,
               rd_hostName = Some h \<rparr>
      \<and> descriptor_complete
          \<lparr> rd_type = ''host'', rd_clusterName = None, rd_serviceName = None,
            rd_hostName = Some h \<rparr>)
   \<and> (\<not> (line_terminator_free uri
           \<and> ((\<exists>d'. resolves uri d') \<or> (\<exists>h'. h' \<noteq> [] \<and> uri = ''ambari://host/'' @ h'))) \<longrightarrow>
      (\<exists>msg. parseResourceUri uri = Inl (McpError InvalidRequest msg None)))"
proof (intro conjI impI)
  assume a: "line_terminator_free uri \<and> resolves uri d"
  then have "parseResourceUri uri = Inr d" by (simp add: parse_complete)
  then show "parseResourceUri uri = Inr d" "descriptor_complete d"
    using parse_sound by simp_all
next
  let ?d = "\<lparr> rd_type = ''host'', rd_clusterName = None, rd_serviceName = None,
              rd_hostName = Some h \<rparr>"
  assume a: "line_terminator_free uri \<and> h \<noteq> [] \<and> uri = ''ambari://host/'' @ h"
  then have l: "line_terminator_free uri" and h: "h \<noteq> []"
    and u: "uri = ''ambari://host/'' @ h" by blast+
  have p: "parseResourceUri uri = Inr ?d"
    unfolding u by (rule parse_host_remainder [OF h l [unfolded u]])
  then show "parseResourceUri uri = Inr ?d" .
  from p show "descriptor_complete ?d" using parse_sound by blast
next
  assume n: "\<not> (line_terminator_free uri
           \<and> ((\<exists>d'. resolves uri d') \<or> (\<exists>h'. h' \<noteq> [] \<and> uri = ''ambari://host/'' @ h')))"
  show "\<exists>msg. parseResourceUri uri = Inl (McpError InvalidRequest msg None)"
  proof (cases "parseResourceUri uri")
    case (Inl err)
    then show ?thesis using parse_error by blast
  next
    case (Inr d')
    from parse_sound [OF this] n show ?thesis by blast
  qed
qed

text \<open>
  A sub-resource address with the longer literal; a host address whose rest is a lone
  slash; a string without the scheme, an address with an empty cluster name and a host
  address with nothing after \<open>host/\<close>.
\<close>

theorem parse_total_witness:
  "parseResourceUri ''ambari://cluster/prod/alerts/summary'' =
     Inr \<lparr> rd_type = ''alerts-summary'', rd_clusterName = Some ''prod'',
            rd_serviceName = None, rd_hostName = None \<rparr>
   \<and> parseResourceUri ''ambari://host//'' =
       Inr \<lparr> rd_type = ''host'', rd_clusterName = None, rd_serviceName = None,
              rd_hostName = Some ''/'' \<rparr>
   \<and> (\<exists>msg. parseResourceUri ''http://localhost/clusters'' =
               Inl (McpError InvalidRequest msg None))
   \<and> (\<exists>msg. parseResourceUri ''ambari://cluster//services'' =
               Inl (McpError InvalidRequest msg None))
   \<and> (\<exists>msg. parseResourceUri ''ambari://host/'' =
               Inl (McpError InvalidRequest msg None))"
proof -
  have ltf: "line_terminator_free ''ambari://cluster/prod/alerts/summary''"
    by (simp add: line_terminator_free_def startsWith_def)
  have "resolves (''ambari://cluster/'' @ ''prod'' @ ''/'' @ ''alerts/summary'')
          (cluster_resource ''alerts-summary'' ''prod'')"
    by (rule r_sub) (simp_all add: segment_name_def sub_resources_def)
  then have r: "resolves ''ambari://cluster/prod/alerts/summary''
          (cluster_resource ''alerts-summary'' ''prod'')" by simp
  have ltfh: "line_terminator_free ''ambari://host//''"
    by (simp add: line_terminator_free_def startsWith_def)
  have n1: "\<not> (line_terminator_free ''http://localhost/clusters''
              \<and> ((\<exists>d'. resolves ''http://localhost/clusters'' d')
                 \<or> (\<exists>h'. h' \<noteq> [] \<and> ''http://localhost/clusters'' = ''ambari://host/'' @ h')))"
    by (auto elim: resolves.cases)
  have n2: "\<not> (line_terminator_free ''ambari://cluster//services''
              \<and> ((\<exists>d'. resolves ''ambari://cluster//services'' d')
                 \<or> (\<exists>h'. h' \<noteq> [] \<and> ''ambari://cluster//services'' = ''ambari://host/'' @ h')))"
    by (auto elim!: resolves.cases simp: segment_name_def Cons_eq_append_conv)
  have n3: "\<not> (line_terminator_free ''ambari://host/''
              \<and> ((\<exists>d'. resolves ''ambari://host/'' d')
                 \<or> (\<exists>h'. h' \<noteq> [] \<and> ''ambari://host/'' = ''ambari://host/'' @ h')))"
    by (auto elim!: resolves.cases simp: segment_name_def Cons_eq_append_conv)
  show ?thesis
    using parse_total [of "''ambari://cluster/prod/alerts/summary''"
                          "cluster_resource ''alerts-summary'' ''prod''"]
          parse_total [of "''ambari://host//''" _ "''/''"]
          parse_total [of "''http://localhost/clusters''"]
          parse_total [of "''ambari://cluster//services''"]
          parse_total [of "''ambari://host/''"]
          ltf ltfh r n1 n2 n3
    by (simp add: cluster_resource_def)
qed

text \<open>
  C4 fails as stated, in both directions. A cluster address whose name ends in a line
  feed matches the grammar \<open>cluster/<name>\<close>, and the parser refuses it. The address
  \<open>ambari://host/a/b\<close> matches no shape of the grammar, whose host name is one path
  segment, and the parser returns a descriptor for it.
\<close>

theorem parse_departs_from_grammar:
  "(resolves (''ambari://cluster/prod'' @ [CHR 0x0A])
      (cluster_resource ''cluster'' (''prod'' @ [CHR 0x0A]))
    \<and> parseResourceUri (''ambari://cluster/prod'' @ [CHR 0x0A]) =
        Inl (McpError InvalidRequest
               (''Invalid resource URI: ambari://cluster/prod'' @ [CHR 0x0A]) None))
   \<and> (\<not> (\<exists>d. resolves ''ambari://host/a/b'' d)
    \<and> parseResourceUri ''ambari://host/a/b'' =
        Inr \<lparr> rd_type = ''host'', rd_clusterName = None, rd_serviceName = None,
               rd_hostName = Some ''a/b'' \<rparr>)"
proof (intro conjI)
  have "resolves (''ambari://cluster/'' @ (''prod'' @ [CHR 0x0A]))
          (cluster_resource ''cluster'' (''prod'' @ [CHR 0x0A]))"
    by (rule r_cluster) (simp add: segment_name_def)
  then show "resolves (''ambari://cluster/prod'' @ [CHR 0x0A])
     (cluster_resource ''cluster'' (''prod'' @ [CHR 0x0A]))" by simp
  show "parseResourceUri (''ambari://cluster/prod'' @ [CHR 0x0A]) =
       Inl (McpError InvalidRequest
              (''Invalid resource URI: ambari://cluster/prod'' @ [CHR 0x0A]) None)"
    by (simp add: parseResourceUri_def match_scheme_def startsWith_def dot_plus_def
          line_terminator_free_def)
  show "\<not> (\<exists>d. resolves ''ambari://host/a/b'' d)"
    by (auto elim!: resolves.cases simp: segment_name_def Cons_eq_append_conv)
  have l: "line_terminator_free (''ambari://host/'' @ ''a/b'')"
    by (simp add: line_terminator_free_def startsWith_def)
  have "parseResourceUri (''ambari://host/'' @ ''a/b'') =
        Inr \<lparr> rd_type = ''host'', rd_clusterName = None, rd_serviceName = None,
               rd_hostName = Some ''a/b'' \<rparr>"
    by (rule parse_host_remainder [OF _ l]) simp
  then show "parseResourceUri ''ambari://host/a/b'' =
        Inr \<lparr> rd_type = ''host'', rd_clusterName = None, rd_serviceName = None,
               rd_hostName = Some ''a/b'' \<rparr>" by simp
qed

lemma line_terminator_free_host:
  "line_terminator_free (''ambari://host/'' @ h) = line_terminator_free h"
  by (simp add: line_terminator_free_def startsWith_def)

text \<open>
  C10, as the code has it. For every rest that is not empty and holds no line
  terminator, \<open>ambari://host/<rest>\<close> parses to the kind \<open>host\<close> with the whole
  rest as the host name, slashes included.
\<close>

theorem parse_host_rest:
  assumes "h \<noteq> []" and "line_terminator_free h"
  shows "parseResourceUri (''ambari://host/'' @ h) =
           Inr \<lparr> rd_type = ''host'', rd_clusterName = None, rd_serviceName = None,
                  rd_hostName = Some h \<rparr>"
  using parse_host_remainder [OF assms(1)] assms(2)
  by (simp only: line_terminator_free_host)

text \<open>The address \<open>ambari://host/a/b\<close> names the host \<open>a/b\<close>.\<close>

theorem parse_host_rest_witness:
  "parseResourceUri ''ambari://host/a/b'' =
     Inr \<lparr> rd_type = ''host'', rd_clusterName = None, rd_serviceName = None,
            rd_hostName = Some ''a/b'' \<rparr>"
  using parse_host_rest [of "''a/b''"]
  by (simp add: line_terminator_free_def startsWith_def)

text \<open>
  C10 fails as stated: a rest that is not empty but holds a line feed is refused.
\<close>

theorem parse_host_rejects_line_terminator:
  "parseResourceUri (''ambari://host/a'' @ [CHR 0x0A] @ ''b'') =
     Inl (McpError InvalidRequest
            (''Invalid resource URI: ambari://host/a'' @ [CHR 0x0A] @ ''b'') None)"
  by (simp add: parseResourceUri_def match_scheme_def startsWith_def dot_plus_def
        line_terminator_free_def)

section \<open>The alerts handler\<close>

lemma group_alert_known:
  assumes "state_or_unknown a \<notin> set object_prototype_names"
  shows "group_alert [(''CRITICAL'', c), (''WARNING'', w), (''OK'', k), (''UNKNOWN'', u)] a =
           Inr [(''CRITICAL'', c @ filter (\<lambda>x. state_or_unknown x = ''CRITICAL'') [a]),
                (''WARNING'', w @ filter (\<lambda>x. state_or_unknown x = ''WARNING'') [a]),
                (''OK'', k @ filter (\<lambda>x. state_or_unknown x = ''OK'') [a]),
                (''UNKNOWN'', u @ filter (\<lambda>x. state_or_unknown x = ''UNKNOWN'') [a])]"
proof -
  consider "state_or_unknown a = ''CRITICAL''" | "state_or_unknown a = ''WARNING''"
    | "state_or_unknown a = ''OK''" | "state_or_unknown a = ''UNKNOWN''"
    | "state_or_unknown a \<notin> set known_states"
    by (auto simp: known_states_def)
  then show ?thesis
  proof cases
    case 5
    then show ?thesis using assms
      by (simp add: group_alert_def read_property_def known_states_def)
  qed (simp_all add: group_alert_def read_property_def)
qed

lemma forEach_group_alert:
  assumes "\<forall>a\<in>set items. state_or_unknown a \<notin> set object_prototype_names"
  shows "forEach group_alert items
           [(''CRITICAL'', c), (''WARNING'', w), (''OK'', k), (''UNKNOWN'', u)] =
           Inr [(''CRITICAL'', c @ filter (\<lambda>x. state_or_unknown x = ''CRITICAL'') items),
                (''WARNING'', w @ filter (\<lambda>x. state_or_unknown x = ''WARNING'') items),
                (''OK'', k @ filter (\<lambda>x. state_or_unknown x = ''OK'') items),
                (''UNKNOWN'', u @ filter (\<lambda>x. state_or_unknown x = ''UNKNOWN'') items)]"
  using assms
proof (induction items arbitrary: c w k u)
  case Nil
  then show ?case by simp
next
  case (Cons a items)
  from Cons.prems have a: "state_or_unknown a \<notin> set object_prototype_names"
    and rest: "\<forall>a\<in>set items. state_or_unknown a \<notin> set object_prototype_names"
    by simp_all
  show ?case
    unfolding forEach.simps group_alert_known [OF a] sum.case Cons.IH [OF rest]
    by simp
qed

lemma state_missing_unknown: "state_missing a \<Longrightarrow> state_or_unknown a = ''UNKNOWN''"
  by (auto simp: state_missing_def state_or_unknown_def truthy_str_def split: option.splits)

lemma alerts_handler_buckets:
  assumes ok: "ax (build_config e ''GET'' (''/clusters/'' @ clusterName @ ''/alerts'')
             [(''fields'',
               JStr ''Alert/definition_name,Alert/service_name,Alert/component_name,Alert/host_name,Alert/state,Alert/text,Alert/timestamp''),
              (''_'', JNum now)] None) = Inr response"
    and safe: "\<forall>a\<in>set (items_of (resp_data response)).
                  state_or_unknown a \<notin> set object_prototype_names"
  shows "fst (alerts_handler e ax now timestamp clusterName) =
     Inr \<lparr> ar_type = ''cluster-alerts'', ar_clusterName = clusterName,
            ar_timestamp = timestamp,
            ar_summary =
              \<lparr> sum_critical = length (filter (\<lambda>x. state_or_unknown x = ''CRITICAL'') (items_of (resp_data response))),
                sum_warning = length (filter (\<lambda>x. state_or_unknown x = ''WARNING'') (items_of (resp_data response))),
                sum_ok = length (filter (\<lambda>x. state_or_unknown x = ''OK'') (items_of (resp_data response))),
                sum_unknown = length (filter (\<lambda>x. state_or_unknown x = ''UNKNOWN'') (items_of (resp_data response))) \<rparr>,
            ar_data =
              [(''CRITICAL'', filter (\<lambda>x. state_or_unknown x = ''CRITICAL'') (items_of (resp_data response))),
               (''WARNING'', filter (\<lambda>x. state_or_unknown x = ''WARNING'') (items_of (resp_data response))),
               (''OK'', filter (\<lambda>x. state_or_unknown x = ''OK'') (items_of (resp_data response))),
               (''UNKNOWN'', filter (\<lambda>x. state_or_unknown x = ''UNKNOWN'') (items_of (resp_data response)))] \<rparr>"
  using forEach_group_alert [OF safe, of "[]" "[]" "[]" "[]"] ok
  by (simp add: alerts_handler_def executeAmbariRequest_def Let_def alerts_result_def
        property_length_def)

lemma length_filter_states:
  "length (filter (\<lambda>x. f x = ''CRITICAL'') xs) + length (filter (\<lambda>x. f x = ''WARNING'') xs)
     + length (filter (\<lambda>x. f x = ''OK'') xs) + length (filter (\<lambda>x. f x = ''UNKNOWN'') xs)
   = length (filter (\<lambda>x. f x \<in> set known_states) xs)"
  by (induction xs) (auto simp: known_states_def)

text \<open>
  C1, as the code has it. Let the upstream answer with a list of alert items none of
  whose states is a name that every object inherits from \<open>Object.prototype\<close>. The
  handler returns the four buckets CRITICAL, WARNING, OK and UNKNOWN, in this order;
  each bucket holds the items of its state, in the order of the list (an item without a
  state counts as UNKNOWN); two different buckets share no item; the four summary counts
  are the four bucket sizes; an item without a state is in the UNKNOWN bucket; an item
  whose state is none of the four is in no bucket, so the bucket sizes add up to the
  number of items whose state is missing or one of the four, not to the length of the
  list.
\<close>

theorem alerts_partition:
  assumes items: "items_of (resp_data response) = items"
    and safe: "\<forall>a\<in>set items. state_or_unknown a \<notin> set object_prototype_names"
  shows "\<exists>r. fst (alerts_handler e (\<lambda>config. Inr response) now timestamp clusterName) = Inr r
     \<and> map fst (ar_data r) = known_states
     \<and> (\<forall>(k, bucket) \<in> set (ar_data r). bucket = filter (\<lambda>a. state_or_unknown a = k) items)
     \<and> (\<forall>(k, bucket) \<in> set (ar_data r). \<forall>(k', bucket') \<in> set (ar_data r).
           k \<noteq> k' \<longrightarrow> set bucket \<inter> set bucket' = {})
     \<and> map (length \<circ> snd) (ar_data r) =
           [sum_critical (ar_summary r), sum_warning (ar_summary r),
            sum_ok (ar_summary r), sum_unknown (ar_summary r)]
     \<and> sum_list (map (length \<circ> snd) (ar_data r)) =
           length (filter (\<lambda>a. state_missing a \<or> state_or_unknown a \<in> set known_states) items)
     \<and> (\<forall>a\<in>set items. state_missing a \<longrightarrow>
           (\<exists>bucket. (''UNKNOWN'', bucket) \<in> set (ar_data r) \<and> a \<in> set bucket))
     \<and> (\<forall>a\<in>set items. state_or_unknown a \<notin> set known_states \<longrightarrow>
           (\<forall>(k, bucket) \<in> set (ar_data r). a \<notin> set bucket))"
proof -
  let ?b = "\<lambda>k. filter (\<lambda>a. state_or_unknown a = k) items"
  let ?r = "\<lparr> ar_type = ''cluster-alerts'', ar_clusterName = clusterName,
            ar_timestamp = timestamp,
            ar_summary =
              \<lparr> sum_critical = length (?b ''CRITICAL''), sum_warning = length (?b ''WARNING''),
                sum_ok = length (?b ''OK''), sum_unknown = length (?b ''UNKNOWN'') \<rparr>,
            ar_data =
              [(''CRITICAL'', ?b ''CRITICAL''), (''WARNING'', ?b ''WARNING''),
               (''OK'', ?b ''OK''), (''UNKNOWN'', ?b ''UNKNOWN'')] \<rparr>"
  have r: "fst (alerts_handler e (\<lambda>config. Inr response) now timestamp clusterName) = Inr ?r"
    using alerts_handler_buckets [of "\<lambda>config. Inr response" e clusterName now response timestamp]
      safe items
    by simp
  have same: "(state_missing a \<or> state_or_unknown a \<in> set known_states)
                = (state_or_unknown a \<in> set known_states)" for a
    using state_missing_unknown [of a] by (auto simp: known_states_def)
  have total: "sum_list (map (length \<circ> snd) (ar_data ?r)) =
           length (filter (\<lambda>a. state_missing a \<or> state_or_unknown a \<in> set known_states) items)"
    using length_filter_states [of state_or_unknown items] by (simp add: same)
  have unknown: "\<forall>a\<in>set items. state_missing a \<longrightarrow>
           (\<exists>bucket. (''UNKNOWN'', bucket) \<in> set (ar_data ?r) \<and> a \<in> set bucket)"
    using state_missing_unknown by auto
  have others: "\<forall>a\<in>set items. state_or_unknown a \<notin> set known_states \<longrightarrow>
           (\<forall>(k, bucket) \<in> set (ar_data ?r). a \<notin> set bucket)"
    by (auto simp: known_states_def)
  have disjoint: "\<forall>(k, bucket) \<in> set (ar_data ?r). \<forall>(k', bucket') \<in> set (ar_data ?r).
           k \<noteq> k' \<longrightarrow> set bucket \<inter> set bucket' = {}"
    by auto
  have buckets: "\<forall>(k, bucket) \<in> set (ar_data ?r). bucket = filter (\<lambda>a. state_or_unknown a = k) items"
    by simp
  have keys: "map fst (ar_data ?r) = known_states" by (simp add: known_states_def)
  have counts: "map (length \<circ> snd) (ar_data ?r) =
           [sum_critical (ar_summary ?r), sum_warning (ar_summary ?r),
            sum_ok (ar_summary ?r), sum_unknown (ar_summary ?r)]" by simp
  show ?thesis
    by (rule exI [of _ ?r]) (intro conjI r keys buckets disjoint counts total unknown others)
qed

text \<open>Three alerts: one critical, one without a state, one fine.\<close>

theorem alerts_partition_witness:
  "\<exists>r. fst (alerts_handler local_env
               (answer_ok (Some \<lparr> body_items =
                  Some [alert_in_state (Some ''CRITICAL'') ''namenode_process'',
                        alert_in_state None ''ambari_agent_disk_usage'',
                        alert_in_state (Some ''OK'') ''datanode_process''] \<rparr>))
               1700000000000 ''2023-11-14T22:13:20.000Z'' ''prod'') = Inr r
     \<and> map fst (ar_data r) = [''CRITICAL'', ''WARNING'', ''OK'', ''UNKNOWN'']
     \<and> sum_list (map (length \<circ> snd) (ar_data r)) = 3
     \<and> (\<exists>bucket. (''UNKNOWN'', bucket) \<in> set (ar_data r)
           \<and> alert_in_state None ''ambari_agent_disk_usage'' \<in> set bucket)"
proof -
  let ?items = "[alert_in_state (Some ''CRITICAL'') ''namenode_process'',
                 alert_in_state None ''ambari_agent_disk_usage'',
                 alert_in_state (Some ''OK'') ''datanode_process'']"
  let ?response = "\<lparr> resp_status = 200, resp_statusText = ''OK'',
                     resp_data = Some \<lparr> body_items = Some ?items \<rparr> \<rparr>"
  have i: "items_of (resp_data ?response) = ?items" by (simp add: items_of_def)
  have states: "state_or_unknown (alert_in_state (Some ''CRITICAL'') ''namenode_process'') = ''CRITICAL''"
    "state_or_unknown (alert_in_state None ''ambari_agent_disk_usage'') = ''UNKNOWN''"
    "state_or_unknown (alert_in_state (Some ''OK'') ''datanode_process'') = ''OK''"
    by (simp_all add: state_or_unknown_def alert_in_state_def)
  have s: "\<forall>a\<in>set ?items. state_or_unknown a \<notin> set object_prototype_names"
    by (simp add: states object_prototype_names_def)
  have m: "state_missing (alert_in_state None ''ambari_agent_disk_usage'')"
    by (simp add: state_missing_def alert_in_state_def truthy_str_def)
  have n: "length (filter (\<lambda>a. state_missing a \<or> state_or_unknown a \<in> set known_states) ?items) = 3"
    by (simp add: states known_states_def)
  from alerts_partition [OF i s, of local_env 1700000000000 "''2023-11-14T22:13:20.000Z''" "''prod''"]
  obtain r where r: "fst (alerts_handler local_env (\<lambda>config. Inr ?response) 1700000000000
                       ''2023-11-14T22:13:20.000Z'' ''prod'') = Inr r"
    and keys: "map fst (ar_data r) = known_states"
    and total: "sum_list (map (length \<circ> snd) (ar_data r)) =
           length (filter (\<lambda>a. state_missing a \<or> state_or_unknown a \<in> set known_states) ?items)"
    and unknown: "\<forall>a\<in>set ?items. state_missing a \<longrightarrow>
           (\<exists>bucket. (''UNKNOWN'', bucket) \<in> set (ar_data r) \<and> a \<in> set bucket)"
    by blast
  from unknown m have u: "\<exists>bucket. (''UNKNOWN'', bucket) \<in> set (ar_data r)
           \<and> alert_in_state None ''ambari_agent_disk_usage'' \<in> set bucket"
    by simp
  from keys have keys': "map fst (ar_data r) = [''CRITICAL'', ''WARNING'', ''OK'', ''UNKNOWN'']"
    by (simp add: known_states_def)
  from total n have total': "sum_list (map (length \<circ> snd) (ar_data r)) = 3"
    by simp
  show ?thesis
    unfolding answer_ok_def
    by (rule exI [of _ r]) (intro conjI r keys' total' u)
qed

text \<open>
  C1 fails as stated: an alert in the state \<open>SKIPPED\<close> lands in no bucket, UNKNOWN
  included, and the four counts add up to 0 for a list of length 1.
\<close>

theorem alerts_drops_other_state:
  "fst (alerts_handler local_env
          (answer_ok (Some \<lparr> body_items =
             Some [alert_in_state (Some ''SKIPPED'') ''datanode_process''] \<rparr>))
          1700000000000 ''2023-11-14T22:13:20.000Z'' ''prod'') =
     Inr \<lparr> ar_type = ''cluster-alerts'', ar_clusterName = ''prod'',
            ar_timestamp = ''2023-11-14T22:13:20.000Z'',
            ar_summary = \<lparr> sum_critical = 0, sum_warning = 0, sum_ok = 0, sum_unknown = 0 \<rparr>,
            ar_data = [(''CRITICAL'', []), (''WARNING'', []), (''OK'', []), (''UNKNOWN'', [])] \<rparr>"
  by (simp add: alerts_handler_def executeAmbariRequest_def answer_ok_def items_of_def
        group_alert_def state_or_unknown_def alert_in_state_def read_property_def
        object_prototype_names_def alerts_result_def property_length_def Let_def)

text \<open>
  A state that names an inherited property is found on the prototype, where there is no
  array to push on: the handler throws.
\<close>

lemma alerts_inherited_name_throws:
  "fst (alerts_handler local_env
          (answer_ok (Some \<lparr> body_items =
             Some [alert_in_state (Some ''constructor'') ''datanode_process''] \<rparr>))
          1700000000000 ''2023-11-14T22:13:20.000Z'' ''prod'') = Inl TypeError"
  by (simp add: alerts_handler_def executeAmbariRequest_def answer_ok_def items_of_def
        group_alert_def state_or_unknown_def alert_in_state_def read_property_def
        object_prototype_names_def Let_def)

section \<open>The stale-configs handler\<close>

lemma mset_concat_update:
  "distinct (map fst al) \<Longrightarrow>
     mset (concat (map snd (AList.update k v al))) + mset (group_of al k) =
     mset (concat (map snd al)) + mset v"
proof (induction al)
  case Nil
  then show ?case by (simp add: group_of_def)
next
  case (Cons p al)
  obtain k' xs where p: "p = (k', xs)" by (cases p)
  show ?case
  proof (cases "k' = k")
    case True
    with Cons.prems p have "map_of al k = None"
      by (simp add: map_of_eq_None_iff)
    with True p show ?thesis by (simp add: group_of_def)
  next
    case False
    with Cons p have "mset (concat (map snd (AList.update k v al))) + mset (group_of al k) =
     mset (concat (map snd al)) + mset v" by simp
    moreover from False p have "group_of (p # al) k = group_of al k"
      by (simp add: group_of_def)
    ultimately show ?thesis using False p by simp
  qed
qed

lemma group_of_update:
  "group_of (AList.update k v al) k' = (if k' = k then v else group_of al k')"
  by (simp add: group_of_def update_conv')

lemma set_insert_index:
  "set (insert_index n k v al) = insert (k, v) (set al)"
  by (induction al) (auto split: option.splits)

lemma map_of_insert_index:
  "map_of al k = None \<Longrightarrow> map_of (insert_index n k v al) = (map_of al)(k \<mapsto> v)"
proof (induction al)
  case Nil
  then show ?case by simp
next
  case (Cons p al)
  obtain k' x where p: "p = (k', x)" by (cases p)
  with Cons.prems have ne: "k' \<noteq> k" and rest: "map_of al k = None"
    by (simp_all split: if_splits)
  from Cons.IH [OF rest] ne p show ?case
    by (auto simp: fun_eq_iff split: option.splits)
qed

lemma distinct_insert_index:
  "map_of al k = None \<Longrightarrow> distinct (map fst al) \<Longrightarrow>
     distinct (map fst (insert_index n k v al))"
proof (induction al)
  case Nil
  then show ?case by simp
next
  case (Cons p al)
  obtain k' x where p: "p = (k', x)" by (cases p)
  with Cons.prems have ne: "k' \<noteq> k" and rest: "map_of al k = None"
    by (simp_all split: if_splits)
  from rest have out: "k \<notin> fst ` set al" by (simp add: map_of_eq_None_iff)
  from Cons.IH [OF rest] Cons.prems(2) ne p out show ?case
    by (auto simp: set_insert_index split: option.splits)
qed

lemma mset_concat_insert_index:
  "mset (concat (map snd (insert_index n k v al))) = mset (concat (map snd al)) + mset v"
  by (induction al) (auto split: option.splits)

lemma map_of_define_property:
  "map_of (define_property k v al) = (map_of al)(k \<mapsto> v)"
proof (cases "map_of al k")
  case None
  then show ?thesis
    by (auto simp: define_property_def map_of_insert_index fun_eq_iff map_add_def
          split: option.splits)
next
  case (Some old)
  then show ?thesis by (simp add: define_property_def update_conv')
qed

lemma keys_define_property:
  "fst ` set (define_property k v al) = insert k (fst ` set al)"
  by (cases "map_of al k"; cases "array_index k")
     (simp_all add: define_property_def set_insert_index dom_update)

lemma distinct_define_property:
  assumes "distinct (map fst al)"
  shows "distinct (map fst (define_property k v al))"
proof (cases "map_of al k")
  case None
  then have "k \<notin> fst ` set al" by (simp add: map_of_eq_None_iff)
  with None assms show ?thesis
    by (cases "array_index k") (simp_all add: define_property_def distinct_insert_index)
next
  case (Some old)
  with assms show ?thesis by (simp add: define_property_def distinct_update)
qed

lemma mset_concat_define_property:
  "map_of al k = None \<Longrightarrow>
     mset (concat (map snd (define_property k v al))) = mset (concat (map snd al)) + mset v"
  by (cases "array_index k") (simp_all add: define_property_def mset_concat_insert_index)

lemma group_of_define_property:
  "group_of (define_property k v al) k' = (if k' = k then v else group_of al k')"
  by (simp add: group_of_def map_of_define_property)

lemma service_name_of_Some: "service_name_of item = Some k \<longleftrightarrow> declares_service item k"
  by (auto simp: service_name_of_def declares_service_def split: option.splits if_splits)

lemma service_name_of_None: "service_name_of item = None \<longleftrightarrow> service_name_missing item"
  by (auto simp: service_name_of_def service_name_missing_def truthy_str_def
        split: option.splits if_splits)

lemma group_stale_unnamed:
  "service_name_of item = None \<Longrightarrow> group_stale acc item = Inr acc"
  by (simp add: group_stale_def)

lemma group_stale_named:
  assumes name: "service_name_of item = Some k"
    and safe: "k \<notin> set object_prototype_names"
  shows "\<exists>init. group_stale acc item = Inr (AList.update k (group_of acc k @ [item]) init)
           \<and> (init = acc \<or> init = define_property k [] acc \<and> map_of acc k = None)"
proof (cases "map_of acc k")
  case None
  then have "group_stale acc item =
      Inr (AList.update k (group_of acc k @ [item]) (define_property k [] acc))"
    using name safe
    by (simp add: group_stale_def read_property_def Let_def map_of_define_property
          group_of_def)
  with None show ?thesis by blast
next
  case (Some xs)
  then have "group_stale acc item = Inr (AList.update k (group_of acc k @ [item]) acc)"
    using name
    by (simp add: group_stale_def read_property_def Let_def group_of_def)
  then show ?thesis by blast
qed

lemma group_stale_step:
  assumes name: "service_name_of item = Some k"
    and safe: "k \<notin> set object_prototype_names"
    and dist: "distinct (map fst acc)"
  shows "\<exists>r. group_stale acc item = Inr r
           \<and> distinct (map fst r)
           \<and> fst ` set r = insert k (fst ` set acc)
           \<and> (\<forall>k'. group_of r k' = (if k' = k then group_of acc k @ [item] else group_of acc k'))
           \<and> mset (concat (map snd r)) = mset (concat (map snd acc)) + {#item#}"
proof -
  from group_stale_named [OF name safe, of acc] obtain init
    where r: "group_stale acc item = Inr (AList.update k (group_of acc k @ [item]) init)"
      and init: "init = acc \<or> init = define_property k [] acc \<and> map_of acc k = None"
    by blast
  let ?r = "AList.update k (group_of acc k @ [item]) init"
  from init dist have di: "distinct (map fst init)"
    by (auto simp: distinct_define_property)
  then have d: "distinct (map fst ?r)" by (simp add: distinct_update)
  from init have keys: "fst ` set ?r = insert k (fst ` set acc)"
    by (elim disjE conjE; simp add: dom_update keys_define_property)
  from init have gi: "group_of init k' = group_of acc k'" for k'
    by (auto simp: group_of_define_property) (simp add: group_of_def)
  then have g: "\<forall>k'. group_of ?r k' = (if k' = k then group_of acc k @ [item] else group_of acc k')"
    by (simp add: group_of_update)
  have mi: "mset (concat (map snd init)) = mset (concat (map snd acc))"
    using init by (auto simp: mset_concat_define_property)
  from mset_concat_update [OF di, of k "group_of acc k @ [item]"] gi [of k] mi
  have m: "mset (concat (map snd ?r)) = mset (concat (map snd acc)) + {#item#}"
    by simp
  show ?thesis
    by (rule exI [of _ ?r]) (intro conjI r d keys g m)
qed

lemma forEach_group_stale:
  assumes safe: "\<forall>i\<in>set items. \<forall>k. service_name_of i = Some k \<longrightarrow>
                   k \<notin> set object_prototype_names"
    and dist: "distinct (map fst acc)"
  shows "\<exists>r. forEach group_stale items acc = Inr r
           \<and> distinct (map fst r)
           \<and> fst ` set r = fst ` set acc \<union> {k. \<exists>i\<in>set items. service_name_of i = Some k}
           \<and> (\<forall>k. group_of r k =
                  group_of acc k @ filter (\<lambda>i. service_name_of i = Some k) items)
           \<and> mset (concat (map snd r)) =
               mset (concat (map snd acc)) + mset (filter (\<lambda>i. service_name_of i \<noteq> None) items)"
  using assms
proof (induction items arbitrary: acc)
  case Nil
  then show ?case by simp
next
  case (Cons item items)
  from Cons.prems(1) have rest: "\<forall>i\<in>set items. \<forall>k. service_name_of i = Some k \<longrightarrow>
                   k \<notin> set object_prototype_names" by simp
  show ?case
  proof (cases "service_name_of item")
    case None
    from Cons.IH [OF rest Cons.prems(2)] obtain r where
      r: "forEach group_stale items acc = Inr r" and d: "distinct (map fst r)"
      and keys: "fst ` set r = fst ` set acc \<union> {k. \<exists>i\<in>set items. service_name_of i = Some k}"
      and g: "\<forall>k. group_of r k = group_of acc k @ filter (\<lambda>i. service_name_of i = Some k) items"
      and m: "mset (concat (map snd r)) =
               mset (concat (map snd acc)) + mset (filter (\<lambda>i. service_name_of i \<noteq> None) items)"
      by blast
    have r': "forEach group_stale (item # items) acc = Inr r"
      using r None by (simp add: group_stale_unnamed)
    have keys': "fst ` set r = fst ` set acc
                   \<union> {k. \<exists>i\<in>set (item # items). service_name_of i = Some k}"
      using keys None by auto
    have g': "\<forall>k. group_of r k =
                group_of acc k @ filter (\<lambda>i. service_name_of i = Some k) (item # items)"
      using g None by simp
    have m': "mset (concat (map snd r)) =
               mset (concat (map snd acc))
               + mset (filter (\<lambda>i. service_name_of i \<noteq> None) (item # items))"
      using m None by simp
    show ?thesis
      by (rule exI [of _ r]) (intro conjI r' d keys' g' m')
  next
    case (Some k)
    with Cons.prems(1) have k: "k \<notin> set object_prototype_names" by simp
    from group_stale_step [OF Some k Cons.prems(2)] obtain acc' where
      s: "group_stale acc item = Inr acc'" and d': "distinct (map fst acc')"
      and keys': "fst ` set acc' = insert k (fst ` set acc)"
      and g': "\<forall>k'. group_of acc' k' =
                 (if k' = k then group_of acc k @ [item] else group_of acc k')"
      and m': "mset (concat (map snd acc')) = mset (concat (map snd acc)) + {#item#}"
      by blast
    from Cons.IH [OF rest d'] obtain r where
      r: "forEach group_stale items acc' = Inr r" and d: "distinct (map fst r)"
      and keys: "fst ` set r = fst ` set acc' \<union> {k. \<exists>i\<in>set items. service_name_of i = Some k}"
      and g: "\<forall>k. group_of r k = group_of acc' k @ filter (\<lambda>i. service_name_of i = Some k) items"
      and m: "mset (concat (map snd r)) =
               mset (concat (map snd acc')) + mset (filter (\<lambda>i. service_name_of i \<noteq> None) items)"
      by blast
    have r2: "forEach group_stale (item # items) acc = Inr r"
      using r s by simp
    have keys2: "fst ` set r = fst ` set acc
                   \<union> {k. \<exists>i\<in>set (item # items). service_name_of i = Some k}"
      using keys keys' Some by auto
    have g2: "\<forall>k. group_of r k =
                group_of acc k @ filter (\<lambda>i. service_name_of i = Some k) (item # items)"
      using g g' Some by simp
    have m2: "mset (concat (map snd r)) =
               mset (concat (map snd acc))
               + mset (filter (\<lambda>i. service_name_of i \<noteq> None) (item # items))"
      using m m' Some by simp
    show ?thesis
      by (rule exI [of _ r]) (intro conjI r2 d keys2 g2 m2)
  qed
qed

lemma group_of_member:
  "distinct (map fst obj) \<Longrightarrow> (k, xs) \<in> set obj \<Longrightarrow> group_of obj k = xs"
  by (simp add: group_of_def)

lemma forEach_group_stale_throws:
  assumes bad: "\<exists>i\<in>set items. \<exists>k. service_name_of i = Some k \<and> k \<in> set object_prototype_names"
    and inv: "fst ` set acc \<inter> set object_prototype_names = {}"
  shows "forEach group_stale items acc = Inl TypeError"
  using assms
proof (induction items arbitrary: acc)
  case Nil
  then show ?case by simp
next
  case (Cons item items)
  show ?case
  proof (cases "service_name_of item")
    case None
    with Cons.prems(1) have "\<exists>i\<in>set items. \<exists>k. service_name_of i = Some k
                               \<and> k \<in> set object_prototype_names" by auto
    from Cons.IH [OF this Cons.prems(2)] None show ?thesis
      by (simp add: group_stale_unnamed)
  next
    case (Some k)
    show ?thesis
    proof (cases "k \<in> set object_prototype_names")
      case True
      with Cons.prems(2) have "k \<notin> fst ` set acc" by blast
      then have "map_of acc k = None" by (simp add: map_of_eq_None_iff)
      with True Some have "group_stale acc item = Inl TypeError"
        by (simp add: group_stale_def read_property_def Let_def)
      then show ?thesis by simp
    next
      case False
      from group_stale_named [OF Some False, of acc] obtain init where
        s: "group_stale acc item = Inr (AList.update k (group_of acc k @ [item]) init)"
        and init: "init = acc \<or> init = define_property k [] acc \<and> map_of acc k = None"
        by blast
      let ?acc = "AList.update k (group_of acc k @ [item]) init"
      from init have "fst ` set ?acc = insert k (fst ` set acc)"
        by (elim disjE conjE; simp add: dom_update keys_define_property)
      with False Cons.prems(2) have inv': "fst ` set ?acc \<inter> set object_prototype_names = {}"
        by auto
      from Cons.prems(1) Some False
      have "\<exists>i\<in>set items. \<exists>k. service_name_of i = Some k \<and> k \<in> set object_prototype_names"
        by auto
      from Cons.IH [OF this inv'] s show ?thesis by simp
    qed
  qed
qed

text \<open>
  The grouping the handler performs. Let the upstream answer with a list of stale host
  components none of whose service names is a name that every object inherits from
  \<open>Object.prototype\<close>. The handler returns one group per service name that occurs in
  the list; the group of a service holds the items that declare it, in the order of the
  list; all groups together hold exactly the items that declare a service name, each as
  often as the list does; an item without a service name (none, or an empty one) is in
  no group. \<open>affectedServices\<close> is the number of distinct service names and
  \<open>totalStaleComponents\<close> is the length of the whole list, the items without a
  service name included.
\<close>

theorem stale_grouping:
  assumes items: "items_of (resp_data response) = items"
    and safe: "\<forall>i\<in>set items. \<forall>k. declares_service i k \<longrightarrow>
                   k \<notin> set object_prototype_names"
  shows "\<exists>r. fst (stale_configs_handler e (\<lambda>config. Inr response) now timestamp clusterName)
                = Inr r
     \<and> sr_type r = ''stale-configurations''
     \<and> sr_clusterName r = clusterName
     \<and> distinct (map fst (sr_data r))
     \<and> set (map fst (sr_data r)) = {k. \<exists>i\<in>set items. declares_service i k}
     \<and> (\<forall>(k, members) \<in> set (sr_data r).
           members = filter (\<lambda>i. declares_service i k) items)
     \<and> mset (concat (map snd (sr_data r))) =
           mset (filter (\<lambda>i. \<not> service_name_missing i) items)
     \<and> (\<forall>i\<in>set items. service_name_missing i \<longrightarrow>
           (\<forall>(k, members) \<in> set (sr_data r). i \<notin> set members))
     \<and> affectedServices (sr_summary r) =
           card {k. \<exists>i\<in>set items. declares_service i k}
     \<and> totalStaleComponents (sr_summary r) = length items"
proof -
  from safe have safe': "\<forall>i\<in>set items. \<forall>k. service_name_of i = Some k \<longrightarrow>
                   k \<notin> set object_prototype_names"
    by (simp add: service_name_of_Some)
  from forEach_group_stale [OF safe', of "[]"] obtain g where
    g: "forEach group_stale items [] = Inr g" and d: "distinct (map fst g)"
    and keys0: "fst ` set g = {k. \<exists>i\<in>set items. service_name_of i = Some k}"
    and groups0: "\<forall>k. group_of g k = filter (\<lambda>i. service_name_of i = Some k) items"
    and m0: "mset (concat (map snd g)) = mset (filter (\<lambda>i. service_name_of i \<noteq> None) items)"
    by (auto simp: group_of_def)
  have keys: "fst ` set g = {k. \<exists>i\<in>set items. declares_service i k}"
    using keys0 unfolding service_name_of_Some .
  have groups: "\<forall>k. group_of g k = filter (\<lambda>i. declares_service i k) items"
    using groups0 unfolding service_name_of_Some .
  have m: "mset (concat (map snd g)) = mset (filter (\<lambda>i. \<not> service_name_missing i) items)"
    using m0 unfolding service_name_of_None .
  let ?r = "\<lparr> sr_type = ''stale-configurations'', sr_clusterName = clusterName,
              sr_timestamp = timestamp,
              sr_summary = \<lparr> totalStaleComponents = length items,
                             affectedServices = length g \<rparr>,
              sr_data = g \<rparr>"
  have r: "fst (stale_configs_handler e (\<lambda>config. Inr response) now timestamp clusterName)
             = Inr ?r"
    using g items
    by (simp add: stale_configs_handler_def executeAmbariRequest_def Let_def)
  have c0: "sr_type ?r = ''stale-configurations''" by simp
  have c0': "sr_clusterName ?r = clusterName" by simp
  have c1: "distinct (map fst (sr_data ?r))" using d by simp
  have c2: "set (map fst (sr_data ?r)) = {k. \<exists>i\<in>set items. declares_service i k}"
    using keys by simp
  have c3: "\<forall>(k, members) \<in> set (sr_data ?r).
           members = filter (\<lambda>i. declares_service i k) items"
    using groups group_of_member [OF d] by fastforce
  have c4: "mset (concat (map snd (sr_data ?r))) =
           mset (filter (\<lambda>i. \<not> service_name_missing i) items)"
    using m by simp
  have no: "service_name_missing i \<Longrightarrow> \<not> declares_service i k" for i k
    using service_name_of_Some [of i k] service_name_of_None [of i] by simp
  have c5: "\<forall>i\<in>set items. service_name_missing i \<longrightarrow>
           (\<forall>(k, members) \<in> set (sr_data ?r). i \<notin> set members)"
    using c3 no by fastforce
  have "length g = card (set (map fst g))"
    using d distinct_card [of "map fst g"] by simp
  then have c6: "affectedServices (sr_summary ?r) =
           card {k. \<exists>i\<in>set items. declares_service i k}"
    using keys by simp
  have c7: "totalStaleComponents (sr_summary ?r) = length items" by simp
  show ?thesis
    by (rule exI [of _ ?r]) (intro conjI r c0 c0' c1 c2 c3 c4 c5 c6 c7)
qed

text \<open>
  Five components: two of HDFS, one of YARN, one that declares no service and one whose
  service name is empty.
\<close>

theorem stale_grouping_witness:
  "\<exists>r. fst (stale_configs_handler local_env
               (answer_ok (Some \<lparr> body_items =
                  Some [stale_component (Some ''HDFS'') ''DATANODE'',
                        stale_component None ''METRICS_MONITOR'',
                        stale_component (Some ''YARN'') ''NODEMANAGER'',
                        stale_component (Some '''') ''ZKFC'',
                        stale_component (Some ''HDFS'') ''NAMENODE''] \<rparr>))
               1700000000000 ''2023-11-14T22:13:20.000Z'' ''prod'') = Inr r
     \<and> set (map fst (sr_data r)) = {''HDFS'', ''YARN''}
     \<and> mset (concat (map snd (sr_data r))) =
         mset [stale_component (Some ''HDFS'') ''DATANODE'',
               stale_component (Some ''YARN'') ''NODEMANAGER'',
               stale_component (Some ''HDFS'') ''NAMENODE'']
     \<and> affectedServices (sr_summary r) = 2
     \<and> totalStaleComponents (sr_summary r) = 5"
proof -
  let ?items = "[stale_component (Some ''HDFS'') ''DATANODE'',
                 stale_component None ''METRICS_MONITOR'',
                 stale_component (Some ''YARN'') ''NODEMANAGER'',
                 stale_component (Some '''') ''ZKFC'',
                 stale_component (Some ''HDFS'') ''NAMENODE'']"
  let ?response = "\<lparr> resp_status = 200, resp_statusText = ''OK'',
                     resp_data = Some \<lparr> body_items = Some ?items \<rparr> \<rparr>"
  have i: "items_of (resp_data ?response) = ?items" by (simp add: items_of_def)
  have names: "declares_service (stale_component (Some ''HDFS'') ''DATANODE'') k \<longleftrightarrow> k = ''HDFS''"
    "\<not> declares_service (stale_component None ''METRICS_MONITOR'') k"
    "declares_service (stale_component (Some ''YARN'') ''NODEMANAGER'') k \<longleftrightarrow> k = ''YARN''"
    "\<not> declares_service (stale_component (Some '''') ''ZKFC'') k"
    "declares_service (stale_component (Some ''HDFS'') ''NAMENODE'') k \<longleftrightarrow> k = ''HDFS''" for k
    by (auto simp: declares_service_def stale_component_def)
  have missing: "\<not> service_name_missing (stale_component (Some ''HDFS'') ''DATANODE'')"
    "service_name_missing (stale_component None ''METRICS_MONITOR'')"
    "\<not> service_name_missing (stale_component (Some ''YARN'') ''NODEMANAGER'')"
    "service_name_missing (stale_component (Some '''') ''ZKFC'')"
    "\<not> service_name_missing (stale_component (Some ''HDFS'') ''NAMENODE'')"
    by (simp_all add: service_name_missing_def stale_component_def truthy_str_def)
  have s: "\<forall>i\<in>set ?items. \<forall>k. declares_service i k \<longrightarrow>
             k \<notin> set object_prototype_names"
    by (auto simp: names object_prototype_names_def)
  have ks: "{k. \<exists>i\<in>set ?items. declares_service i k} = {''HDFS'', ''YARN''}"
    by (auto simp: names)
  have named: "filter (\<lambda>i. \<not> service_name_missing i) ?items =
                 [stale_component (Some ''HDFS'') ''DATANODE'',
                  stale_component (Some ''YARN'') ''NODEMANAGER'',
                  stale_component (Some ''HDFS'') ''NAMENODE'']"
    by (simp add: missing)
  from stale_grouping [OF i s, of local_env 1700000000000 "''2023-11-14T22:13:20.000Z''" "''prod''"]
  obtain r where r: "fst (stale_configs_handler local_env (\<lambda>config. Inr ?response) 1700000000000
                       ''2023-11-14T22:13:20.000Z'' ''prod'') = Inr r"
    and keys: "set (map fst (sr_data r)) = {k. \<exists>i\<in>set ?items. declares_service i k}"
    and union: "mset (concat (map snd (sr_data r))) =
                  mset (filter (\<lambda>i. \<not> service_name_missing i) ?items)"
    and affected: "affectedServices (sr_summary r) =
                     card {k. \<exists>i\<in>set ?items. declares_service i k}"
    and total: "totalStaleComponents (sr_summary r) = length ?items"
    by blast
  from keys ks have keys': "set (map fst (sr_data r)) = {''HDFS'', ''YARN''}" by simp
  from union named have union': "mset (concat (map snd (sr_data r))) =
         mset [stale_component (Some ''HDFS'') ''DATANODE'',
               stale_component (Some ''YARN'') ''NODEMANAGER'',
               stale_component (Some ''HDFS'') ''NAMENODE'']" by simp
  from affected ks have affected': "affectedServices (sr_summary r) = 2" by simp
  from total have total': "totalStaleComponents (sr_summary r) = 5" by simp
  show ?thesis
    unfolding answer_ok_def
    by (rule exI [of _ r]) (intro conjI r keys' union' affected' total')
qed

text \<open>
  A component without a service name, and one whose service name is the empty string,
  are counted in the total and are in no group.
\<close>

lemma stale_unnamed_component_in_no_group:
  "fst (stale_configs_handler local_env
          (answer_ok (Some \<lparr> body_items = Some [stale_component None ''METRICS_MONITOR'',
                                                stale_component (Some '''') ''ZKFC''] \<rparr>))
          1700000000000 ''2023-11-14T22:13:20.000Z'' ''prod'') =
     Inr \<lparr> sr_type = ''stale-configurations'', sr_clusterName = ''prod'',
            sr_timestamp = ''2023-11-14T22:13:20.000Z'',
            sr_summary = \<lparr> totalStaleComponents = 2, affectedServices = 0 \<rparr>,
            sr_data = [] \<rparr>"
  by (simp add: stale_configs_handler_def executeAmbariRequest_def answer_ok_def items_of_def
        group_stale_def service_name_of_def stale_component_def Let_def)

text \<open>
  The groups come in the order the object enumerates its keys: a service name that is
  an array index comes before the others, the smaller index first.
\<close>

lemma stale_groups_enumeration_order:
  "fst (stale_configs_handler local_env
          (answer_ok (Some \<lparr> body_items = Some [stale_component (Some ''YARN'') ''A'',
                                                stale_component (Some ''10'') ''B'',
                                                stale_component (Some ''HDFS'') ''C'',
                                                stale_component (Some ''2'') ''D'',
                                                stale_component (Some ''07'') ''E'',
                                                stale_component (Some ''YARN'') ''F''] \<rparr>))
          1700000000000 ''2023-11-14T22:13:20.000Z'' ''prod'') =
     Inr \<lparr> sr_type = ''stale-configurations'', sr_clusterName = ''prod'',
            sr_timestamp = ''2023-11-14T22:13:20.000Z'',
            sr_summary = \<lparr> totalStaleComponents = 6, affectedServices = 5 \<rparr>,
            sr_data = [(''2'', [stale_component (Some ''2'') ''D'']),
                       (''10'', [stale_component (Some ''10'') ''B'']),
                       (''YARN'', [stale_component (Some ''YARN'') ''A'',
                                   stale_component (Some ''YARN'') ''F'']),
                       (''HDFS'', [stale_component (Some ''HDFS'') ''C'']),
                       (''07'', [stale_component (Some ''07'') ''E''])] \<rparr>"
  by (simp add: stale_configs_handler_def executeAmbariRequest_def answer_ok_def items_of_def
        group_stale_def service_name_of_def stale_component_def read_property_def
        object_prototype_names_def define_property_def array_index_def digit_value_def
        Let_def)

text \<open>
  Whenever some component of the list declares a service whose name every object
  inherits from \<open>Object.prototype\<close>, the handler throws: the name is found on the
  prototype, so no array is created for it, and the value found has no \<open>push\<close>.
\<close>

lemma stale_inherited_name_always_throws:
  assumes items: "items_of (resp_data response) = items"
    and bad: "\<exists>i\<in>set items. \<exists>k. declares_service i k \<and> k \<in> set object_prototype_names"
  shows "fst (stale_configs_handler e (\<lambda>config. Inr response) now timestamp clusterName)
           = Inl TypeError"
proof -
  from bad have "\<exists>i\<in>set items. \<exists>k. service_name_of i = Some k
                   \<and> k \<in> set object_prototype_names"
    by (simp add: service_name_of_Some)
  then have "forEach group_stale items [] = Inl TypeError"
    by (rule forEach_group_stale_throws) simp
  with items show ?thesis
    by (simp add: stale_configs_handler_def executeAmbariRequest_def Let_def)
qed

text \<open>
  C5 fails in the code. The upstream answers with one stale component whose service
  name is \<open>constructor\<close>. The claim puts the component in the group of that service;
  the handler throws a \<open>TypeError\<close> and returns no grouping at all:
  \<open>staleByService["constructor"]\<close> is the function every object inherits, which is
  truthy, so no array is created, and \<open>push\<close> is not a function of it.
\<close>

theorem stale_inherited_name_throws:
  "fst (stale_configs_handler local_env
          (answer_ok (Some \<lparr> body_items = Some [stale_component (Some ''constructor'') ''X''] \<rparr>))
          1700000000000 ''2023-11-14T22:13:20.000Z'' ''prod'') = Inl TypeError"
  by (simp add: stale_configs_handler_def executeAmbariRequest_def answer_ok_def items_of_def
        group_stale_def service_name_of_def stale_component_def read_property_def
        object_prototype_names_def Let_def)

section \<open>The two read-then-write executors\<close>

lemma toLowerCase_PUT: "toLowerCase ''PUT'' = ''put''"
  by (simp add: toLowerCase_def lower_char_def)

lemma toLowerCase_POST: "toLowerCase ''POST'' = ''post''"
  by (simp add: toLowerCase_def lower_char_def)

lemma update_keeps_others:
  "filter (\<lambda>(k', v). k' \<noteq> k) (AList.update k x al) = filter (\<lambda>(k', v). k' \<noteq> k) al"
  by (induction al) auto

lemma update_new_key:
  "k \<notin> fst ` set al \<Longrightarrow> AList.update k x al = al @ [(k, x)]"
  by (induction al) auto

lemma digit_value_digit_char: "d < 10 \<Longrightarrow> digit_value (digit_char d) = Some d"
proof -
  assume "d < 10"
  then consider "d = 0" | "d = 1" | "d = 2" | "d = 3" | "d = 4" | "d = 5" | "d = 6"
    | "d = 7" | "d = 8" | "d = 9"
    by atomize_elim arith
  then show ?thesis
    by cases (simp_all add: digit_value_def digit_char_def)
qed

lemma digit_char_not_minus: "d < 10 \<Longrightarrow> digit_char d \<noteq> CHR ''-''"
  using digit_value_digit_char [of d] by (auto simp: digit_value_def)

lemma digit_char_zero: "d < 10 \<Longrightarrow> digit_char d = CHR ''0'' \<longleftrightarrow> d = 0"
proof -
  assume d: "d < 10"
  have "digit_value (CHR ''0'') = Some 0" by (simp add: digit_value_def)
  with digit_value_digit_char [OF d] show ?thesis
    by (auto simp: digit_char_def)
qed

lemma digits_value_snoc:
  "digits_value acc (cs @ [c]) =
     (case digits_value acc cs of
        None \<Rightarrow> None
      | Some a \<Rightarrow> (case digit_value c of None \<Rightarrow> None | Some d \<Rightarrow> Some (10 * a + d)))"
  by (induction cs arbitrary: acc) (auto split: option.splits)

lemma nat_to_string_nonempty: "nat_to_string n \<noteq> []"
  by (subst nat_to_string.simps) simp

lemma digits_value_nat_to_string: "digits_value 0 (nat_to_string n) = Some n"
proof (induction n rule: nat_to_string.induct)
  case (1 n)
  show ?case
  proof (cases "n < 10")
    case True
    then show ?thesis
      by (subst nat_to_string.simps) (simp add: digit_value_digit_char)
  next
    case False
    with "1.IH" have "digits_value 0 (nat_to_string (n div 10)) = Some (n div 10)" by simp
    with False show ?thesis
      by (subst nat_to_string.simps) (simp add: digits_value_snoc digit_value_digit_char)
  qed
qed

lemma hd_nat_to_string_not_minus: "hd (nat_to_string n) \<noteq> CHR ''-''"
proof (induction n rule: nat_to_string.induct)
  case (1 n)
  show ?case
  proof (cases "n < 10")
    case True
    then show ?thesis
      by (subst nat_to_string.simps) (simp add: digit_char_not_minus)
  next
    case False
    with "1.IH" show ?thesis
      by (subst nat_to_string.simps) (simp add: nat_to_string_nonempty)
  qed
qed

lemma hd_nat_to_string_not_zero: "0 < n \<Longrightarrow> hd (nat_to_string n) \<noteq> CHR ''0''"
proof (induction n rule: nat_to_string.induct)
  case (1 n)
  show ?case
  proof (cases "n < 10")
    case True
    with "1.prems" show ?thesis
      by (subst nat_to_string.simps) (simp add: digit_char_zero)
  next
    case False
    then have "0 < n div 10" by simp
    with "1.IH" False show ?thesis
      by (subst nat_to_string.simps) (simp add: nat_to_string_nonempty)
  qed
qed

lemma decimal_value_number_to_string: "decimal_value (number_to_string i) = Some i"
proof (cases "i < 0")
  case True
  then show ?thesis
    by (simp add: number_to_string_def decimal_value_def nat_to_string_nonempty
          digits_value_nat_to_string)
next
  case False
  obtain c cs where s: "nat_to_string (nat i) = c # cs"
    using nat_to_string_nonempty [of "nat i"] by (cases "nat_to_string (nat i)") auto
  with hd_nat_to_string_not_minus [of "nat i"] have "c \<noteq> CHR ''-''" by simp
  with s False digits_value_nat_to_string [of "nat i"] show ?thesis
    by (simp add: number_to_string_def decimal_value_def)
qed

lemma canonical_number_to_string: "canonical_decimal (number_to_string i)"
proof (cases "i < 0")
  case True
  then have "0 < nat (- i)" by simp
  from hd_nat_to_string_not_zero [OF this] True show ?thesis
    by (simp add: number_to_string_def canonical_decimal_def nat_to_string_nonempty)
next
  case nonneg: False
  obtain c cs where s: "nat_to_string (nat i) = c # cs"
    using nat_to_string_nonempty [of "nat i"] by (cases "nat_to_string (nat i)") auto
  have nm: "c \<noteq> CHR ''-''" using hd_nat_to_string_not_minus [of "nat i"] s by simp
  show ?thesis
  proof (cases "nat i < 10")
    case True
    then have "nat_to_string (nat i) = [digit_char (nat i)]"
      by (subst nat_to_string.simps) simp
    with s have "cs = []" by simp
    with s nm nonneg show ?thesis
      by (simp add: number_to_string_def canonical_decimal_def)
  next
    case False
    then have "0 < nat i" by simp
    from hd_nat_to_string_not_zero [OF this] s have "c \<noteq> CHR ''0''" by simp
    with s nm nonneg show ?thesis
      by (simp add: number_to_string_def canonical_decimal_def)
  qed
qed

text \<open>
  C7. Let the read of the cluster-env configuration answer with a list whose first item
  carries the properties \<open>props\<close>. The executor then issues two requests, the read and
  a PUT on the cluster with no query parameters, whose body is
  \<open>{Clusters: {desired_config: {type: "cluster-env", properties: submitted}}}\<close>. The
  submitted properties are \<open>props\<close> with the one key \<open>alerts_repeat_tolerance\<close> set to
  the string \<open>tolerance.toString()\<close>: as a mapping they are \<open>props\<close> updated at that
  key; every other entry is kept as it was, in its place; a key that \<open>props\<close> does not
  have is added behind them. For a tolerance that is a safe integer the string is its
  canonical decimal numeral.
\<close>

theorem savealertsettings_merges:
  assumes current:
    "resp_data response =
       Some \<lparr> body_items = Some (\<lparr> ci_properties = Some props, ci_rest = other \<rparr> # older) \<rparr>"
  shows "\<exists>getreq putreq submitted s.
           snd (ambari_alerts_savealertsettings e render (\<lambda>config. Inr response) ax_write
                  \<lparr> sa_clusterName = c, sa_alertRepeatTolerance = tolerance \<rparr>)
             = [getreq, putreq]
         \<and> cfg_method getreq = ''get''
         \<and> cfg_url getreq = AMBARI_BASE_URL e @ ''/clusters/'' @ c @ ''/configurations''
         \<and> cfg_method putreq = ''put''
         \<and> cfg_url putreq = AMBARI_BASE_URL e @ ''/clusters/'' @ c
         \<and> cfg_params putreq = None
         \<and> cfg_data putreq =
             Some (JObj [(''Clusters'',
                          JObj [(''desired_config'',
                                 JObj [(''type'', JStr ''cluster-env''),
                                       (''properties'', JObj submitted)])])])
         \<and> map_of submitted = (map_of props)(''alerts_repeat_tolerance'' \<mapsto> JStr s)
         \<and> filter (\<lambda>(k, v). k \<noteq> ''alerts_repeat_tolerance'') submitted =
             filter (\<lambda>(k, v). k \<noteq> ''alerts_repeat_tolerance'') props
         \<and> (''alerts_repeat_tolerance'' \<notin> fst ` set props \<longrightarrow>
               submitted = props @ [(''alerts_repeat_tolerance'', JStr s)])
         \<and> s = number_toString render tolerance
         \<and> (safe_integer tolerance \<longrightarrow>
               decimal_value s = Some tolerance \<and> canonical_decimal s)"
proof -
  let ?s = "number_toString render tolerance"
  let ?submitted = "updatedProperties render props tolerance"
  let ?getreq = "build_config e ''GET'' (''/clusters/'' @ c @ ''/configurations'')
                   [(''type'', JStr ''cluster-env''), (''fields'', JStr ''*'')] None"
  let ?putreq = "build_config e ''PUT'' (''/clusters/'' @ c) []
                   (Some (settings_body ?submitted))"
  have cur: "currentProperties (resp_data response) = props"
    using current by (simp add: currentProperties_def)
  have sent: "snd (ambari_alerts_savealertsettings e render (\<lambda>config. Inr response) ax_write
                  \<lparr> sa_clusterName = c, sa_alertRepeatTolerance = tolerance \<rparr>)
             = [?getreq, ?putreq]"
    by (simp add: ambari_alerts_savealertsettings_def executeAmbariRequest_def Let_def cur
          split: prod.splits)
  have g1: "cfg_method ?getreq = ''get''"
    and g2: "cfg_url ?getreq = AMBARI_BASE_URL e @ ''/clusters/'' @ c @ ''/configurations''"
    and p1: "cfg_method ?putreq = ''put''"
    and p2: "cfg_url ?putreq = AMBARI_BASE_URL e @ ''/clusters/'' @ c"
    and p3: "cfg_params ?putreq = None"
    and p4: "cfg_data ?putreq =
             Some (JObj [(''Clusters'',
                          JObj [(''desired_config'',
                                 JObj [(''type'', JStr ''cluster-env''),
                                       (''properties'', JObj ?submitted)])])])"
    by (simp_all add: build_config_def toLowerCase_GET toLowerCase_PUT settings_body_def)
  have m: "map_of ?submitted = (map_of props)(''alerts_repeat_tolerance'' \<mapsto> JStr ?s)"
    by (simp add: updatedProperties_def update_conv')
  have f: "filter (\<lambda>(k, v). k \<noteq> ''alerts_repeat_tolerance'') ?submitted =
             filter (\<lambda>(k, v). k \<noteq> ''alerts_repeat_tolerance'') props"
    unfolding updatedProperties_def by (rule update_keeps_others)
  have a: "''alerts_repeat_tolerance'' \<notin> fst ` set props \<longrightarrow>
               ?submitted = props @ [(''alerts_repeat_tolerance'', JStr ?s)]"
    unfolding updatedProperties_def by (simp add: update_new_key)
  have s: "?s = number_toString render tolerance" ..
  have d: "safe_integer tolerance \<longrightarrow>
               decimal_value ?s = Some tolerance \<and> canonical_decimal ?s"
    by (simp add: number_toString_def decimal_value_number_to_string
          canonical_number_to_string)
  show ?thesis
    by (rule exI [of _ ?getreq], rule exI [of _ ?putreq], rule exI [of _ ?submitted],
        rule exI [of _ ?s])
       (intro conjI sent g1 g2 p1 p2 p3 p4 m f a s d)
qed

text \<open>
  The properties \<open>{a: "1", b: "2"}\<close> and the tolerance 5: the PUT submits
  \<open>{a: "1", b: "2", alerts_repeat_tolerance: "5"}\<close>.
\<close>

theorem savealertsettings_merges_witness:
  "\<exists>getreq putreq.
     snd (ambari_alerts_savealertsettings local_env (\<lambda>n. ''1e+21'')
            (answer_ok (Some \<lparr> body_items =
               Some [\<lparr> ci_properties = Some [(''a'', JStr ''1''), (''b'', JStr ''2'')],
                        ci_rest = [] \<rparr>] \<rparr>))
            (answer_ok JNull)
            \<lparr> sa_clusterName = ''prod'', sa_alertRepeatTolerance = 5 \<rparr>)
       = [getreq, putreq]
     \<and> cfg_method putreq = ''put''
     \<and> cfg_url putreq = ''http://localhost:8080/api/v1/clusters/prod''
     \<and> cfg_data putreq =
         Some (JObj [(''Clusters'',
                      JObj [(''desired_config'',
                             JObj [(''type'', JStr ''cluster-env''),
                                   (''properties'',
                                    JObj [(''a'', JStr ''1''), (''b'', JStr ''2''),
                                          (''alerts_repeat_tolerance'', JStr ''5'')])])])])"
proof -
  let ?props = "[(''a'', JStr ''1''), (''b'', JStr ''2'')]"
  let ?response = "\<lparr> resp_status = 200, resp_statusText = ''OK'',
                     resp_data = Some \<lparr> body_items =
                       Some [\<lparr> ci_properties = Some ?props, ci_rest = [] \<rparr>] \<rparr> \<rparr>"
  have c: "resp_data ?response =
       Some \<lparr> body_items = Some (\<lparr> ci_properties = Some ?props, ci_rest = [] \<rparr> # []) \<rparr>"
    by simp
  have new: "''alerts_repeat_tolerance'' \<notin> fst ` set ?props" by simp
  have safe: "safe_integer 5" by (simp add: safe_integer_def)
  from savealertsettings_merges [OF c, of local_env "\<lambda>n. ''1e+21''" "answer_ok JNull" "''prod''" 5]
  obtain getreq putreq submitted s where
    sent: "snd (ambari_alerts_savealertsettings local_env (\<lambda>n. ''1e+21'')
                  (\<lambda>config. Inr ?response) (answer_ok JNull)
                  \<lparr> sa_clusterName = ''prod'', sa_alertRepeatTolerance = 5 \<rparr>) = [getreq, putreq]"
    and put: "cfg_method putreq = ''put''"
    and url: "cfg_url putreq = AMBARI_BASE_URL local_env @ ''/clusters/'' @ ''prod''"
    and body: "cfg_data putreq =
             Some (JObj [(''Clusters'',
                          JObj [(''desired_config'',
                                 JObj [(''type'', JStr ''cluster-env''),
                                       (''properties'', JObj submitted)])])])"
    and added: "''alerts_repeat_tolerance'' \<notin> fst ` set ?props \<longrightarrow>
               submitted = ?props @ [(''alerts_repeat_tolerance'', JStr s)]"
    and numeral: "safe_integer 5 \<longrightarrow> decimal_value s = Some 5 \<and> canonical_decimal s"
    and s: "s = number_toString (\<lambda>n. ''1e+21'') 5"
    by blast
  have five: "s = ''5''"
    unfolding s
    by (simp add: number_toString_def safe_integer_def number_to_string_def
          nat_to_string.simps digit_char_def)
  from added new five have sub: "submitted =
      [(''a'', JStr ''1''), (''b'', JStr ''2''), (''alerts_repeat_tolerance'', JStr ''5'')]"
    by simp
  from url have url': "cfg_url putreq = ''http://localhost:8080/api/v1/clusters/prod''"
    by (simp add: local_env_def)
  show ?thesis
    unfolding answer_ok_def
    by (rule exI [of _ getreq], rule exI [of _ putreq])
       (intro conjI sent [unfolded answer_ok_def] put url' body [unfolded sub])
qed

text \<open>
  The decimal numeral is read back digit by digit: the tolerance 12 is submitted as the
  two characters \<open>1\<close> and \<open>2\<close>, and a tolerance of \<open>10^21\<close>, which is no safe
  integer, as whatever the built-in prints.
\<close>

lemma tolerance_rendering:
  "number_toString render 12 = ''12''"
  and "number_toString render (- 3) = ''-3''"
  and "number_toString (\<lambda>n. ''1e+21'') 1000000000000000000000 = ''1e+21''"
  by (simp_all add: number_toString_def safe_integer_def number_to_string_def
        nat_to_string.simps digit_char_def)

lemma pushed_definition_id_conv:
  "pushed_definition_id coerce d =
     (case id_of_definition coerce d of None \<Rightarrow> [] | Some v \<Rightarrow> [v])"
  by (cases d) (auto simp: id_of_definition_def split: option.splits)

lemma extracted_ids:
  "\<forall>d\<in>set defs. id_of_definition coerce d \<noteq> None \<Longrightarrow>
     map Some (concat (map (pushed_definition_id coerce) defs)) =
     map (id_of_definition coerce) defs"
  by (induction defs) (auto simp: pushed_definition_id_conv)

text \<open>
  C8. Let the read of the source group answer with a \<open>definitions\<close> list in which
  every entry is a number or an object that exposes \<open>id\<close>. The executor then issues
  two requests, the read and a POST on the cluster's alert groups, and the group the
  POST creates carries the new name and one ID per entry, in the order of the list: the
  number itself, or the object's \<open>id\<close>.
\<close>

theorem duplicatealertgroup_ids:
  assumes source:
    "resp_data response =
       Some \<lparr> agb_AlertGroup = Some \<lparr> ag_definitions = Some defs, ag_rest = other \<rparr> \<rparr>"
    and refs: "\<forall>d\<in>set defs. id_of_definition coerce d \<noteq> None"
  shows "\<exists>getreq postreq ids.
           snd (ambari_alerts_duplicatealertgroup e coerce (\<lambda>config. Inr response) ax_write
                  \<lparr> da_clusterName = c, da_sourceGroupId = g, da_newGroupName = n \<rparr>)
             = [getreq, postreq]
         \<and> cfg_method getreq = ''get''
         \<and> cfg_url getreq =
             AMBARI_BASE_URL e @ ''/clusters/'' @ c @ ''/alert_groups/'' @ number_to_string g
         \<and> cfg_method postreq = ''post''
         \<and> cfg_url postreq = AMBARI_BASE_URL e @ ''/clusters/'' @ c @ ''/alert_groups''
         \<and> cfg_data postreq =
             Some (JObj [(''AlertGroup'',
                          JObj [(''name'', JStr n), (''definitions'', JArr ids)])])
         \<and> map Some ids = map (id_of_definition coerce) defs
         \<and> (\<forall>i<length defs. \<forall>m kvs.
               defs ! i = JNum m \<or> defs ! i = JObj kvs \<and> map_of kvs ''id'' = Some (JNum m)
               \<longrightarrow> ids ! i = JNum m)"
proof -
  let ?ids = "definitionIds coerce \<lparr> ag_definitions = Some defs, ag_rest = other \<rparr>"
  let ?getreq = "build_config e ''GET''
                   (''/clusters/'' @ c @ ''/alert_groups/'' @ number_to_string g)
                   [(''fields'', JStr ''*'')] None"
  let ?postreq = "build_config e ''POST'' (''/clusters/'' @ c @ ''/alert_groups'') []
                    (Some (duplicate_body n ?ids))"
  have sent: "snd (ambari_alerts_duplicatealertgroup e coerce (\<lambda>config. Inr response) ax_write
                  \<lparr> da_clusterName = c, da_sourceGroupId = g, da_newGroupName = n \<rparr>)
             = [?getreq, ?postreq]"
    using source
    by (simp add: ambari_alerts_duplicatealertgroup_def executeAmbariRequest_def Let_def
          split: prod.splits)
  have g1: "cfg_method ?getreq = ''get''"
    and g2: "cfg_url ?getreq =
             AMBARI_BASE_URL e @ ''/clusters/'' @ c @ ''/alert_groups/'' @ number_to_string g"
    and p1: "cfg_method ?postreq = ''post''"
    and p2: "cfg_url ?postreq = AMBARI_BASE_URL e @ ''/clusters/'' @ c @ ''/alert_groups''"
    and p3: "cfg_data ?postreq =
             Some (JObj [(''AlertGroup'',
                          JObj [(''name'', JStr n), (''definitions'', JArr ?ids)])])"
    by (simp_all add: build_config_def toLowerCase_GET toLowerCase_POST duplicate_body_def)
  have ids: "map Some ?ids = map (id_of_definition coerce) defs"
    using extracted_ids [OF refs] by (simp add: definitionIds_def)
  have nth: "\<forall>i<length defs. \<forall>m kvs.
               defs ! i = JNum m \<or> defs ! i = JObj kvs \<and> map_of kvs ''id'' = Some (JNum m)
               \<longrightarrow> ?ids ! i = JNum m"
  proof (intro allI impI)
    fix i m kvs
    assume i: "i < length defs"
      and d: "defs ! i = JNum m \<or> defs ! i = JObj kvs \<and> map_of kvs ''id'' = Some (JNum m)"
    from d have "id_of_definition coerce (defs ! i) = Some (JNum m)"
      by (auto simp: id_of_definition_def js_Number_def)
    moreover from ids i have "Some (?ids ! i) = id_of_definition coerce (defs ! i)"
      by (metis length_map nth_map)
    ultimately show "?ids ! i = JNum m" by simp
  qed
  show ?thesis
    by (rule exI [of _ ?getreq], rule exI [of _ ?postreq], rule exI [of _ ?ids])
       (intro conjI sent g1 g2 p1 p2 p3 ids nth)
qed

text \<open>The definitions \<open>[3, {id: 7}, 9]\<close>.\<close>

theorem duplicatealertgroup_ids_witness:
  "\<exists>getreq postreq.
     snd (ambari_alerts_duplicatealertgroup local_env (\<lambda>v. JNull)
            (answer_ok (Some \<lparr> agb_AlertGroup =
               Some \<lparr> ag_definitions = Some [JNum 3, JObj [(''id'', JNum 7)], JNum 9],
                      ag_rest = [(''name'', JStr ''HDFS alerts'')] \<rparr> \<rparr>))
            (answer_ok JNull)
            \<lparr> da_clusterName = ''prod'', da_sourceGroupId = 4,
              da_newGroupName = ''HDFS alerts copy'' \<rparr>)
       = [getreq, postreq]
     \<and> cfg_data postreq =
         Some (JObj [(''AlertGroup'',
                      JObj [(''name'', JStr ''HDFS alerts copy''),
                            (''definitions'', JArr [JNum 3, JNum 7, JNum 9])])])"
proof -
  let ?defs = "[JNum 3, JObj [(''id'', JNum 7)], JNum 9]"
  let ?response = "\<lparr> resp_status = 200, resp_statusText = ''OK'',
                     resp_data = Some \<lparr> agb_AlertGroup =
                       Some \<lparr> ag_definitions = Some ?defs,
                              ag_rest = [(''name'', JStr ''HDFS alerts'')] \<rparr> \<rparr> \<rparr>"
  have s: "resp_data ?response =
       Some \<lparr> agb_AlertGroup = Some \<lparr> ag_definitions = Some ?defs,
                                       ag_rest = [(''name'', JStr ''HDFS alerts'')] \<rparr> \<rparr>"
    by simp
  have r: "\<forall>d\<in>set ?defs. id_of_definition (\<lambda>v. JNull) d \<noteq> None"
    by (simp add: id_of_definition_def)
  from duplicatealertgroup_ids [OF s r, of local_env "answer_ok JNull" "''prod''" 4
                                  "''HDFS alerts copy''"]
  obtain getreq postreq ids where
    sent: "snd (ambari_alerts_duplicatealertgroup local_env (\<lambda>v. JNull)
                  (\<lambda>config. Inr ?response) (answer_ok JNull)
                  \<lparr> da_clusterName = ''prod'', da_sourceGroupId = 4,
                    da_newGroupName = ''HDFS alerts copy'' \<rparr>) = [getreq, postreq]"
    and body: "cfg_data postreq =
             Some (JObj [(''AlertGroup'',
                          JObj [(''name'', JStr ''HDFS alerts copy''), (''definitions'', JArr ids)])])"
    and ids: "map Some ids = map (id_of_definition (\<lambda>v. JNull)) ?defs"
    by blast
  from ids have "map Some ids = map Some [JNum 3, JNum 7, JNum 9]"
    by (simp add: id_of_definition_def js_Number_def)
  then have "ids = [JNum 3, JNum 7, JNum 9]"
    by (simp only: inj_map_eq_map [OF inj_Some])
  with body have body': "cfg_data postreq =
         Some (JObj [(''AlertGroup'',
                      JObj [(''name'', JStr ''HDFS alerts copy''),
                            (''definitions'', JArr [JNum 3, JNum 7, JNum 9])])])"
    by simp
  show ?thesis
    unfolding answer_ok_def
    by (rule exI [of _ getreq], rule exI [of _ postreq])
       (intro conjI sent [unfolded answer_ok_def] body')
qed

end
